theory Spec2Isabelle
  imports Main "HOL-Library.Sublist"
begin

section \<open>Python values used by scrape.py\<close>

text \<open>
  A Python \<open>str\<close> is modelled by a HOL \<open>string\<close>, one \<open>char\<close> per code point, so
  the model covers the strings whose code points are below 256. The predicates below are
  Python's own on that range.
\<close>

definition backslash :: char where
  "backslash = CHR 0x5C"

definition newline :: char where
  "newline = CHR 0x0A"

definition carriage_return :: char where
  "carriage_return = CHR 0x0D"

definition backquote :: char where
  "backquote = CHR 0x60"

definition quote :: char where
  "quote = CHR 0x27"

text \<open>\<open>if x:\<close> on a value that is \<open>None\<close> or a string.\<close>

definition truthy :: "string option \<Rightarrow> bool" where
  "truthy x = (case x of None \<Rightarrow> False | Some v \<Rightarrow> v \<noteq> [])"

text \<open>\<open>str.isspace\<close> of one character: tab to carriage return, the four separators
  0x1C to 0x1F, space, NEL and the no-break space.\<close>

definition py_isspace :: "char \<Rightarrow> bool" where
  "py_isspace c = ((of_char c :: nat) \<in> {9, 10, 11, 12, 13, 28, 29, 30, 31, 32, 133, 160})"

definition strip :: "string \<Rightarrow> string" where
  "strip text = rev (dropWhile py_isspace (rev (dropWhile py_isspace text)))"

definition startswith :: "string \<Rightarrow> string \<Rightarrow> bool" where
  "startswith text p = (take (length p) text = p)"

text \<open>\<open>str.lower\<close>: the ASCII capitals and the Latin-1 capitals (0xC0 to 0xDE without the
  multiplication sign) move up by 32.\<close>

definition lower_char :: "char \<Rightarrow> char" where
  "lower_char c =
     (let n = (of_char c :: nat)
      in if (65 \<le> n \<and> n \<le> 90) \<or> (192 \<le> n \<and> n \<le> 222 \<and> n \<noteq> 215) then char_of (n + 32) else c)"

definition lower :: "string \<Rightarrow> string" where
  "lower text = map lower_char text"

text \<open>\<open>sep.join(parts)\<close>.\<close>

fun join :: "string \<Rightarrow> string list \<Rightarrow> string" where
  "join sep [] = []"
| "join sep [p] = p"
| "join sep (p # q # ps) = p @ sep @ join sep (q # ps)"

text \<open>\<open>text.replace(old, new)\<close> for a pattern \<open>old\<close> of one character: every
  occurrence is replaced, left to right.\<close>

definition str_replace :: "char \<Rightarrow> string \<Rightarrow> string \<Rightarrow> string" where
  "str_replace old new text = concat (map (\<lambda>c. if c = old then new else [c]) text)"

text \<open>\<open>str(n)\<close> for an integer.\<close>

definition digit_char :: "nat \<Rightarrow> char" where
  "digit_char d = char_of (48 + d)"

fun str_nat :: "nat \<Rightarrow> string" where
  "str_nat n = (if n < 10 then [digit_char n] else str_nat (n div 10) @ [digit_char (n mod 10)])"

declare str_nat.simps [simp del]

definition str_int :: "int \<Rightarrow> string" where
  "str_int i = (if i < 0 then CHR ''-'' # str_nat (nat (- i)) else str_nat (nat i))"

text \<open>\<open>x.isdigit()\<close>: the string is not empty and every character is a digit. Below 256
  the digit characters are \<open>0\<close> to \<open>9\<close> and the superscripts two, three and one (0xB2,
  0xB3, 0xB9).\<close>

definition ascii_digit :: "char \<Rightarrow> bool" where
  "ascii_digit c = (48 \<le> (of_char c :: nat) \<and> (of_char c :: nat) \<le> 57)"

definition isdigit_char :: "char \<Rightarrow> bool" where
  "isdigit_char c = (ascii_digit c \<or> (of_char c :: nat) \<in> {178, 179, 185})"

definition isdigit :: "string \<Rightarrow> bool" where
  "isdigit x = (x \<noteq> [] \<and> list_all isdigit_char x)"

text \<open>\<open>int(x)\<close> for a string with \<open>x.isdigit()\<close>: the decimal value when every character
  is a decimal digit, and \<open>ValueError\<close> (\<open>None\<close>) on a superscript digit or on more than
  4,300 digits, the default limit of current interpreters on the length of a decimal string
  (earlier interpreters have no limit; the theorems below use only conversions that succeed
  with the limit, and these succeed without it).\<close>

definition digit_value :: "char \<Rightarrow> nat" where
  "digit_value c = of_char c - 48"

definition int_of_digits :: "string \<Rightarrow> nat option" where
  "int_of_digits x =
     (if list_all ascii_digit x \<and> length x \<le> 4300
      then Some (foldl (\<lambda>a c. 10 * a + digit_value c) 0 x) else None)"


section \<open>Markup sanitizer\<close>

definition special_chars :: "char list" where
  "special_chars = [CHR ''_'', CHR ''*'', CHR ''['', CHR '']'', CHR ''('', CHR '')'', CHR ''~'',
     CHR 0x60, CHR ''>'', CHR ''#'', CHR ''+'', CHR ''-'', CHR ''='', CHR ''|'', CHR ''{'',
     CHR ''}'', CHR ''.'', CHR ''!'']"

text \<open>\<open>escape_markdown_v2\<close>: \<open>None\<close> and the empty string give the empty string;
  otherwise one \<open>replace\<close> per special character, in the order of the list.\<close>

definition escape_markdown_v2 :: "string option \<Rightarrow> string" where
  "escape_markdown_v2 text =
     (case text of
        None \<Rightarrow> []
      | Some t \<Rightarrow>
          if t = [] then []
          else fold (\<lambda>ch t. str_replace ch [backslash, ch] t) special_chars t)"

text \<open>What the sanitizer does to one character (used to state its result).\<close>

definition escape_char :: "char \<Rightarrow> string" where
  "escape_char c = (if c \<in> set special_chars then [backslash, c] else [c])"

definition create_safe_url_link :: "string option \<Rightarrow> string option \<Rightarrow> string" where
  "create_safe_url_link url display_text =
     (if \<not> truthy url then []
      else
        let display = (if truthy display_text then the display_text else ''Link'');
            safe_display_text = escape_markdown_v2 (Some display)
        in ''['' @ safe_display_text @ '']('' @ the url @ '')'')"


section \<open>Posts, configuration and the outside world\<close>

text \<open>A media object: each attribute is \<open>None\<close> when the object does not have it.\<close>

record media_item =
  mtype :: "string option"
  url :: "string option"
  media_url_https :: "string option"
  media_url :: "string option"
  preview_image_url :: "string option"

text \<open>\<open>tweet.media\<close>: nothing, a list of media objects, or one object that is not a list.\<close>

datatype media_field = NoMedia | MediaList "media_item list" | MediaObject media_item

record tweet =
  ident :: int
  username :: string
  displayname :: string
  rawContent :: string
  likeCount :: int
  retweetCount :: int
  replyCount :: int
  date :: string
  media :: media_field

text \<open>The settings at the top of scrape.py that the modelled functions read. \<open>date\<close> of a
  tweet above is \<open>str(tweet.date)\<close>, \<open>ident\<close> is \<open>tweet.id\<close>.\<close>

record config =
  TELEGRAM_BOT_TOKEN :: string
  TELEGRAM_CHAT_ID :: string
  MIN_LIKES :: int
  TWEET_TYPES :: string

definition default_config :: config where
  "default_config =
     \<lparr> TELEGRAM_BOT_TOKEN = ''YOUR_BOT_TOKEN_HERE'', TELEGRAM_CHAT_ID = ''YOUR_CHAT_ID_HERE'',
       MIN_LIKES = 5000, TWEET_TYPES = ''media_only'' \<rparr>"

text \<open>Replies of the outside world. Raising means an exception derived from \<open>Exception\<close>,
  the kind the handlers of scrape.py are written for; an interrupt of the process
  (\<open>KeyboardInterrupt\<close>, a cancelled task) is not part of the model. A HEAD request gives a
  status or raises. A POST to the
  transport is acknowledged, refused (\<open>ok\<close> false, with the description if there is one and the
  response text), raises a \<open>requests\<close> exception (its text, and the text of its response if it
  has one), or raises another exception. A file operation completes, fails when the file is
  opened, or fails after a part of it went through: \<open>TransferFailed k e\<close> is the exception
  \<open>e\<close> after \<open>k\<close> lines were read, after \<open>k\<close> of the writes of a rewrite (one for each
  identifier), or after \<open>k\<close> characters of an append reached the file.\<close>

datatype head_outcome = Status nat | HeadException string

datatype request =
    SendPhoto string string string string
  | SendVideo string string string string
  | SendMessage string string string

datatype response =
    Accepted
  | Refused "string option" string
  | RequestException string "string option"
  | OtherException string

datatype io_outcome = Completed | OpenFailed string | TransferFailed nat string

datatype event =
    Head string head_outcome
  | Post request response
  | Sleep nat
  | Search string nat
  | FileRead io_outcome
  | FileAppend string io_outcome
  | FileRewrite "string list" io_outcome

text \<open>The world answers each call knowing everything that happened before it.\<close>

record environment =
  head_reply :: "event list \<Rightarrow> string \<Rightarrow> head_outcome"
  post_reply :: "event list \<Rightarrow> request \<Rightarrow> response"
  io_reply :: "event list \<Rightarrow> io_outcome"

text \<open>How a text file ends: after a line terminator (or with nothing in it), inside a last
  line that has no terminator, or right after a carriage return, where a line feed written
  next belongs to the same terminator.\<close>

datatype line_end = Terminated | Unterminated | AfterCR

text \<open>The state the program works on: the backing file (\<open>None\<close> when it does not exist,
  else its lines without their terminators, as a read in text mode yields them) and how the
  file ends, the calls made so far with their replies, the failure and skip messages printed
  (progress messages are left out), the in-memory seen set and the three counters of a
  cycle.\<close>

record state =
  store :: "string list option"
  ending :: line_end
  trace :: "event list"
  console :: "string list"
  sent_tweets :: "string set"
  tweet_count :: nat
  new_tweets_sent :: nat
  duplicates_skipped :: nat

definition emit :: "event \<Rightarrow> state \<Rightarrow> state" where
  "emit e s = s\<lparr>trace := trace s @ [e]\<rparr>"

definition print :: "string \<Rightarrow> state \<Rightarrow> state" where
  "print msg s = s\<lparr>console := console s @ [msg]\<rparr>"


section \<open>Media probing and the delivery client\<close>

text \<open>\<open>validate_media_url\<close>: one HEAD request; true only on status 200, false on any
  exception.\<close>

definition validate_media_url :: "environment \<Rightarrow> string \<Rightarrow> state \<Rightarrow> bool \<times> state" where
  "validate_media_url env u s =
     (let r = head_reply env (trace s) u;
          s1 = emit (Head u r) s
      in case r of
           Status n \<Rightarrow> (n = 200, s1)
         | HeadException e \<Rightarrow> (False, print (''Media validation failed for '' @ u @ '': '' @ e) s1))"

definition description_or_default :: "string option \<Rightarrow> string" where
  "description_or_default d = (case d of None \<Rightarrow> ''No description'' | Some v \<Rightarrow> v)"

text \<open>\<open>send_telegram_photo\<close> and \<open>send_telegram_video\<close> catch every exception.\<close>

definition send_telegram_photo ::
  "environment \<Rightarrow> string \<Rightarrow> string \<Rightarrow> string \<Rightarrow> string \<Rightarrow> state \<Rightarrow> bool \<times> state" where
  "send_telegram_photo env chat_id photo_url caption bot_token s =
     (let req = SendPhoto bot_token chat_id photo_url caption;
          r = post_reply env (trace s) req;
          s1 = emit (Post req r) s
      in case r of
           Accepted \<Rightarrow> (True, s1)
         | Refused d body \<Rightarrow>
             (False, print (''ERROR: Telegram sendPhoto failed: '' @ description_or_default d) s1)
         | RequestException e body \<Rightarrow> (False, print (''ERROR: Failed to send photo: '' @ e) s1)
         | OtherException e \<Rightarrow> (False, print (''ERROR: Failed to send photo: '' @ e) s1))"

definition send_telegram_video ::
  "environment \<Rightarrow> string \<Rightarrow> string \<Rightarrow> string \<Rightarrow> string \<Rightarrow> state \<Rightarrow> bool \<times> state" where
  "send_telegram_video env chat_id video_url caption bot_token s =
     (let req = SendVideo bot_token chat_id video_url caption;
          r = post_reply env (trace s) req;
          s1 = emit (Post req r) s
      in case r of
           Accepted \<Rightarrow> (True, s1)
         | Refused d body \<Rightarrow>
             (False, print (''ERROR: Telegram sendVideo failed: '' @ description_or_default d) s1)
         | RequestException e body \<Rightarrow> (False, print (''ERROR: Failed to send video: '' @ e) s1)
         | OtherException e \<Rightarrow> (False, print (''ERROR: Failed to send video: '' @ e) s1))"

text \<open>\<open>send_telegram_message\<close> catches \<open>requests.exceptions.RequestException\<close> only: any
  other exception leaves the function (\<open>Inl\<close>, with its text).\<close>

definition send_telegram_message ::
  "environment \<Rightarrow> string \<Rightarrow> string \<Rightarrow> string \<Rightarrow> state \<Rightarrow> (string + bool) \<times> state" where
  "send_telegram_message env chat_id message bot_token s =
     (let req = SendMessage bot_token chat_id message;
          r = post_reply env (trace s) req;
          s1 = emit (Post req r) s
      in case r of
           Accepted \<Rightarrow> (Inr True, s1)
         | Refused d body \<Rightarrow>
             (Inr False,
              print (''ERROR: Telegram API error: '' @ description_or_default d
                       @ ''. Response: '' @ body) s1)
         | RequestException e body \<Rightarrow>
             (Inr False,
              print (''ERROR: Failed to send message: '' @ e @ ''. Response text: ''
                       @ (case body of None \<Rightarrow> ''No response text'' | Some b \<Rightarrow> b)) s1)
         | OtherException e \<Rightarrow> (Inl e, s1))"

text \<open>\<open>getattr(media_item, 'type', 'unknown')\<close>.\<close>

definition type_or_unknown :: "media_item \<Rightarrow> string" where
  "type_or_unknown m = (case mtype m of None \<Rightarrow> ''unknown'' | Some ty \<Rightarrow> ty)"

text \<open>The first loop of \<open>send_telegram_message_with_media\<close>: true as soon as one media
  message is acknowledged, false when the items are used up.\<close>

fun media_loop ::
  "environment \<Rightarrow> string \<Rightarrow> string \<Rightarrow> string \<Rightarrow> media_item list \<Rightarrow> state \<Rightarrow> bool \<times> state" where
  "media_loop env chat_id message bot_token [] s = (False, s)"
| "media_loop env chat_id message bot_token (media_item # rest) s =
     (let media_type = lower (type_or_unknown media_item);
          media_url = url media_item
      in if \<not> truthy media_url then media_loop env chat_id message bot_token rest s
         else
           case validate_media_url env (the media_url) s of
             (False, s1) \<Rightarrow>
               media_loop env chat_id message bot_token rest
                 (print (''Media URL not accessible, skipping: '' @ the media_url) s1)
           | (True, s1) \<Rightarrow>
               if media_type \<in> set [''photo'', ''image''] then
                 case send_telegram_photo env chat_id (the media_url) message bot_token s1 of
                   (True, s2) \<Rightarrow> (True, s2)
                 | (False, s2) \<Rightarrow> media_loop env chat_id message bot_token rest s2
               else if media_type \<in> set [''video'', ''animated_gif''] then
                 case send_telegram_video env chat_id (the media_url) message bot_token s1 of
                   (True, s2) \<Rightarrow> (True, s2)
                 | (False, s2) \<Rightarrow> media_loop env chat_id message bot_token rest s2
               else media_loop env chat_id message bot_token rest s1)"

text \<open>The second loop: one link line for every item whose \<open>url\<close> is set.\<close>

definition media_links :: "media_item list \<Rightarrow> string list" where
  "media_links media_items =
     map (\<lambda>m. ''  '' @ [backslash] @ ''- '' @ create_safe_url_link (url m) (Some (type_or_unknown m)))
       (filter (\<lambda>m. truthy (url m)) media_items)"

definition fallback_message :: "string \<Rightarrow> media_item list \<Rightarrow> string" where
  "fallback_message message media_items =
     (if media_links media_items \<noteq> []
      then message @ [newline, newline] @ ''*Media*:'' @ [newline]
             @ join [newline] (media_links media_items)
      else message)"

definition send_telegram_message_with_media ::
  "environment \<Rightarrow> string \<Rightarrow> string \<Rightarrow> string \<Rightarrow> media_item list option \<Rightarrow> state
     \<Rightarrow> (string + bool) \<times> state" where
  "send_telegram_message_with_media env chat_id message bot_token media_items s =
     (case media_items of
        None \<Rightarrow> send_telegram_message env chat_id message bot_token s
      | Some [] \<Rightarrow> send_telegram_message env chat_id message bot_token s
      | Some items \<Rightarrow>
          (case media_loop env chat_id message bot_token items s of
             (True, s1) \<Rightarrow> (Inr True, s1)
           | (False, s1) \<Rightarrow>
               send_telegram_message env chat_id (fallback_message message items) bot_token
                 (print ''Media failed, sending as text with links...'' s1)))"


section \<open>Media resolver\<close>

definition possible_urls :: "media_item \<Rightarrow> string list" where
  "possible_urls m =
     map the (filter truthy [url m, media_url_https m, media_url m, preview_image_url m])"

fun first_working_url :: "environment \<Rightarrow> string list \<Rightarrow> state \<Rightarrow> string option \<times> state" where
  "first_working_url env [] s = (None, s)"
| "first_working_url env (u # us) s =
     (case validate_media_url env u s of
        (True, s1) \<Rightarrow> (Some u, s1)
      | (False, s1) \<Rightarrow> first_working_url env us s1)"

definition get_best_media_url :: "environment \<Rightarrow> media_item \<Rightarrow> state \<Rightarrow> string option \<times> state" where
  "get_best_media_url env m s = first_working_url env (possible_urls m) s"


section \<open>Seen-set store\<close>

text \<open>\<open>load_sent_tweets\<close>: the identifiers of the lines read, each line stripped, the empty
  ones left out. An exception keeps what was read before it.\<close>

definition line_ids :: "string list \<Rightarrow> string set" where
  "line_ids ls = set (filter (\<lambda>tweet_id. tweet_id \<noteq> []) (map (\<lambda>line. strip (line @ [newline])) ls))"

definition load_sent_tweets :: "environment \<Rightarrow> state \<Rightarrow> string set \<times> state" where
  "load_sent_tweets env s =
     (case store s of
        None \<Rightarrow> ({}, s)
      | Some ls \<Rightarrow>
          (let r = io_reply env (trace s);
               s1 = emit (FileRead r) s
           in (case r of
                 Completed \<Rightarrow> (line_ids ls, s1)
               | OpenFailed e \<Rightarrow> ({}, print (''Error reading sent tweets file: '' @ e) s1)
               | TransferFailed k e \<Rightarrow>
                   (line_ids (take k ls), print (''Error reading sent tweets file: '' @ e) s1))))"

text \<open>What one character written at the end of a file does to its lines: a line feed or a
  carriage return ends the last line when that one is unterminated and is an empty line of
  its own otherwise, except that a line feed right after a carriage return adds nothing; any
  other character continues an unterminated last line or starts a new line.\<close>

fun put_char :: "char \<Rightarrow> string list \<times> line_end \<Rightarrow> string list \<times> line_end" where
  "put_char c (ls, e) =
     (if c = newline then
        (if e = Terminated \<or> (e = Unterminated \<and> ls = []) then (ls @ [[]], Terminated)
         else (ls, Terminated))
      else if c = carriage_return then
        (if e = Unterminated \<and> ls \<noteq> [] then (ls, AfterCR) else (ls @ [[]], AfterCR))
      else
        (if e = Unterminated \<and> ls \<noteq> [] then (butlast ls @ [last ls @ [c]], Unterminated)
         else (ls @ [[c]], Unterminated)))"

definition write_text :: "string \<Rightarrow> string list \<times> line_end \<Rightarrow> string list \<times> line_end" where
  "write_text text f = fold put_char text f"

text \<open>\<open>save_sent_tweet\<close>: the file is opened for appending, which creates it when it does
  not exist, and the identifier followed by a line feed is written at its end (as it is, the
  line separator of the system being the line feed); an exception is printed and goes no
  further. \<open>opened_for_append\<close> is the file as the append finds it, \<open>with_file\<close> puts
  the file that a write leaves into the state.\<close>

definition lines_of :: "string list option \<Rightarrow> string list" where
  "lines_of f = (case f of None \<Rightarrow> [] | Some ls \<Rightarrow> ls)"

definition opened_for_append :: "state \<Rightarrow> string list \<times> line_end" where
  "opened_for_append s = (case store s of None \<Rightarrow> ([], Terminated) | Some ls \<Rightarrow> (ls, ending s))"

definition with_file :: "string list \<times> line_end \<Rightarrow> state \<Rightarrow> state" where
  "with_file f s = s\<lparr>store := Some (fst f), ending := snd f\<rparr>"

definition save_sent_tweet :: "environment \<Rightarrow> string \<Rightarrow> state \<Rightarrow> state" where
  "save_sent_tweet env tweet_id s =
     (let r = io_reply env (trace s);
          s1 = emit (FileAppend tweet_id r) s
      in case r of
           Completed \<Rightarrow>
             with_file (write_text (tweet_id @ [newline]) (opened_for_append s1)) s1
         | OpenFailed e \<Rightarrow> print (''Error saving tweet ID: '' @ e) s1
         | TransferFailed k e \<Rightarrow>
             print (''Error saving tweet ID: '' @ e)
               (with_file (write_text (take k (tweet_id @ [newline])) (opened_for_append s1)) s1))"

text \<open>\<open>cleanup_old_sent_tweets\<close>. The set comes as the list of its elements in the order
  Python iterates it (no element twice); that order is not specified, and neither is the order
  of the set returned. The sort key is \<open>int(x) if x.isdigit() else 0\<close>; \<open>sorted\<close> is stable
  and raises when a key does. The parameter \<open>days_to_keep\<close> is never read. The rewrite
  ends every line that it writes.\<close>

definition sort_rank :: "string \<Rightarrow> nat option" where
  "sort_rank x = (if isdigit x then int_of_digits x else Some 0)"

text \<open>The text of the \<open>ValueError\<close> that \<open>int(x)\<close> raises for an all-digit string.\<close>

definition value_error :: "string \<Rightarrow> string" where
  "value_error x =
     (if list_all ascii_digit x
      then ''Exceeds the limit (4300 digits) for integer string conversion: value has ''
             @ str_nat (length x)
             @ '' digits; use sys.set_int_max_str_digits() to increase the limit''
      else ''invalid literal for int() with base 10: '' @ [quote] @ x @ [quote])"

definition cleanup_old_sent_tweets :: "environment \<Rightarrow> string list \<Rightarrow> state \<Rightarrow> string list \<times> state" where
  "cleanup_old_sent_tweets env sent s =
     (if length sent > 10000 then
        (case find (\<lambda>x. sort_rank x = None) sent of
           Some x \<Rightarrow> (sent, print (''Error during cleanup: '' @ value_error x) s)
         | None \<Rightarrow>
             (let sorted_tweets = sort_key (\<lambda>x. the (sort_rank x)) sent;
                  sent_tweets_to_keep = drop (length sorted_tweets - 8000) sorted_tweets;
                  r = io_reply env (trace s);
                  s1 = emit (FileRewrite sent_tweets_to_keep r) s
              in (case r of
                    Completed \<Rightarrow>
                      (sent_tweets_to_keep,
                       s1\<lparr>store := Some sent_tweets_to_keep, ending := Terminated\<rparr>)
                  | OpenFailed e \<Rightarrow> (sent, print (''Error during cleanup: '' @ e) s1)
                  | TransferFailed k e \<Rightarrow>
                      (sent, print (''Error during cleanup: '' @ e)
                               (s1\<lparr>store := Some (take k sent_tweets_to_keep),
                                   ending := Terminated\<rparr>)))))
      else (sent, s))"


section \<open>Cycle engine\<close>


definition tweet_content_display :: "tweet \<Rightarrow> string" where
  "tweet_content_display t =
     (if rawContent t \<noteq> [] then
        if startswith (strip (rawContent t)) ''http://''
           \<or> startswith (strip (rawContent t)) ''https://''
        then create_safe_url_link (Some (strip (rawContent t))) (Some ''Tweet Link'')
        else escape_markdown_v2 (Some (rawContent t))
      else ''*No text content*'')"

definition telegram_message :: "tweet \<Rightarrow> string" where
  "telegram_message t =
     (let tweet_url = ''https://twitter.com/'' @ username t @ ''/status/'' @ str_int (ident t);
          tweet_link = create_safe_url_link (Some tweet_url) (Some ''View on X'')
      in ''*VIRAL TWEET ALERT*'' @ [newline, newline]
         @ ''*Author*: @'' @ escape_markdown_v2 (Some (username t))
         @ '' '' @ [backslash] @ ''('' @ escape_markdown_v2 (Some (displayname t))
         @ [backslash] @ '')'' @ [newline]
         @ ''*Tweet ID*: '' @ [backquote] @ escape_markdown_v2 (Some (str_int (ident t)))
         @ [backquote, newline]
         @ ''*Likes*: '' @ [backquote] @ escape_markdown_v2 (Some (str_int (likeCount t)))
         @ [backquote, newline]
         @ ''*Retweets*: '' @ [backquote] @ escape_markdown_v2 (Some (str_int (retweetCount t)))
         @ [backquote, newline]
         @ ''*Replies*: '' @ [backquote] @ escape_markdown_v2 (Some (str_int (replyCount t)))
         @ [backquote, newline]
         @ ''*Date*: '' @ [backquote] @ escape_markdown_v2 (Some (date t))
         @ [backquote, newline, newline]
         @ ''*Content*:'' @ [newline] @ tweet_content_display t @ [newline, newline]
         @ tweet_link)"

text \<open>\<open>media_items\<close> of a tweet: \<open>None\<close> when \<open>tweet.media\<close> is empty, the list itself, or
  the single object wrapped in a list.\<close>

definition media_items_of :: "tweet \<Rightarrow> media_item list option" where
  "media_items_of t =
     (case media t of
        NoMedia \<Rightarrow> None
      | MediaList [] \<Rightarrow> None
      | MediaList (m # ms) \<Rightarrow> Some (m # ms)
      | MediaObject m \<Rightarrow> Some [m])"

text \<open>The loop that calls \<open>get_best_media_url\<close> for every item; the result only goes into
  a progress message.\<close>

fun probe_media :: "environment \<Rightarrow> media_item list \<Rightarrow> state \<Rightarrow> state" where
  "probe_media env [] s = s"
| "probe_media env (m # ms) s = probe_media env ms (snd (get_best_media_url env m s))"

definition configured :: "config \<Rightarrow> bool" where
  "configured cfg = (TELEGRAM_BOT_TOKEN cfg \<noteq> [] \<and> TELEGRAM_CHAT_ID cfg \<noteq> [])"

text \<open>The body of the loop over the stream, for one tweet. The first component is the
  exception that leaves the body, if any.\<close>

definition handle_tweet :: "config \<Rightarrow> environment \<Rightarrow> tweet \<Rightarrow> state \<Rightarrow> string option \<times> state" where
  "handle_tweet cfg env t s =
     (let s0 = s\<lparr>tweet_count := tweet_count s + 1\<rparr>;
          tweet_id_str = str_int (ident t)
      in if tweet_id_str \<in> sent_tweets s0 then
           (None, print (''Skipping duplicate tweet ID: '' @ tweet_id_str)
                    (s0\<lparr>duplicates_skipped := duplicates_skipped s0 + 1\<rparr>))
         else
           let media_items = media_items_of t;
               s1 = probe_media env (case media_items of None \<Rightarrow> [] | Some ms \<Rightarrow> ms) s0
           in if configured cfg then
                (case send_telegram_message_with_media env (TELEGRAM_CHAT_ID cfg)
                        (telegram_message t) (TELEGRAM_BOT_TOKEN cfg) media_items s1 of
                   (Inl e, s2) \<Rightarrow> (Some e, s2)
                 | (Inr True, s2) \<Rightarrow>
                     (None,
                      emit (Sleep 10)
                        ((save_sent_tweet env tweet_id_str
                            (s2\<lparr>sent_tweets := insert tweet_id_str (sent_tweets s2)\<rparr>))
                           \<lparr>new_tweets_sent := new_tweets_sent s2 + 1\<rparr>))
                 | (Inr False, s2) \<Rightarrow>
                     (None, emit (Sleep 10) (print ''Failed to send to Telegram'' s2)))
              else (None, print ''Telegram credentials not configured'' s1))"

text \<open>The delivery call that \<open>handle_tweet\<close> makes for a tweet examined in state \<open>s\<close>, with
  its result: the tweet is counted and its media probed before the call.\<close>

definition delivery :: "config \<Rightarrow> environment \<Rightarrow> tweet \<Rightarrow> state \<Rightarrow> (string + bool) \<times> state" where
  "delivery cfg env t s =
     send_telegram_message_with_media env (TELEGRAM_CHAT_ID cfg) (telegram_message t)
       (TELEGRAM_BOT_TOKEN cfg) (media_items_of t)
       (probe_media env (case media_items_of t of None \<Rightarrow> [] | Some ms \<Rightarrow> ms)
          (s\<lparr>tweet_count := tweet_count s + 1\<rparr>))"




text \<open>The events of a trace that are calls to the transport.\<close>

fun is_post :: "event \<Rightarrow> bool" where
  "is_post (Post req r) = True"
| "is_post e = False"

definition posts :: "event list \<Rightarrow> event list" where
  "posts tr = filter is_post tr"

text \<open>The calls that the transport acknowledged, the acknowledged media messages among them,
  and the text messages.\<close>

fun is_ack :: "event \<Rightarrow> bool" where
  "is_ack (Post req Accepted) = True"
| "is_ack e = False"

definition acks :: "event list \<Rightarrow> nat" where
  "acks tr = length (filter is_ack tr)"

fun is_media_ack :: "event \<Rightarrow> bool" where
  "is_media_ack (Post (SendPhoto bot_token chat_id u caption) Accepted) = True"
| "is_media_ack (Post (SendVideo bot_token chat_id u caption) Accepted) = True"
| "is_media_ack e = False"

fun is_text_post :: "event \<Rightarrow> bool" where
  "is_text_post (Post (SendMessage bot_token chat_id message) r) = True"
| "is_text_post e = False"


section \<open>Auxiliary notions and sample inputs\<close>

text \<open>Two states hold the same data when they differ at most in trace and console.\<close>

definition same_data :: "state \<Rightarrow> state \<Rightarrow> bool" where
  "same_data s s' =
     (store s' = store s \<and> ending s' = ending s \<and> sent_tweets s' = sent_tweets s
      \<and> tweet_count s' = tweet_count s
      \<and> new_tweets_sent s' = new_tweets_sent s \<and> duplicates_skipped s' = duplicates_skipped s)"

text \<open>Sample inputs: a state with nothing in it, one whose store has two lines and one
  whose store is the single line \<open>123\<close> without terminator, a tweet without media, a configuration without bot token, a photo with a primary URL, a
  photo that only has the HTTPS media URL, a photo with all four URLs, and a tweet with the
  photo that only has the HTTPS media URL.\<close>

definition fresh_state :: state where
  "fresh_state =
     \<lparr> store = None, ending = Terminated, trace = [], console = [], sent_tweets = {},
       tweet_count = 0,
       new_tweets_sent = 0, duplicates_skipped = 0 \<rparr>"

definition two_line_state :: state where
  "two_line_state = fresh_state\<lparr>store := Some [''123'', ''456'']\<rparr>"

definition open_line_state :: state where
  "open_line_state = fresh_state\<lparr>store := Some [''123''], ending := Unterminated\<rparr>"

definition text_tweet :: tweet where
  "text_tweet =
     \<lparr> ident = 42, username = ''alice'', displayname = ''Alice'', rawContent = ''hi'',
       likeCount = 6000, retweetCount = 1, replyCount = 2, date = ''2024-06-01'',
       media = NoMedia \<rparr>"

definition unconfigured :: config where
  "unconfigured = default_config\<lparr>TELEGRAM_BOT_TOKEN := []\<rparr>"

definition photo_item :: "string \<Rightarrow> media_item" where
  "photo_item u =
     \<lparr> mtype = Some ''photo'', url = Some u, media_url_https = None, media_url = None,
       preview_image_url = None \<rparr>"

definition https_only_item :: media_item where
  "https_only_item =
     \<lparr> mtype = Some ''photo'', url = None, media_url_https = Some ''https://pbs.example/a.jpg'',
       media_url = None, preview_image_url = None \<rparr>"

definition full_item :: media_item where
  "full_item =
     \<lparr> mtype = Some ''photo'', url = Some ''https://a'', media_url_https = Some ''https://b'',
       media_url = Some ''https://c'', preview_image_url = Some ''https://d'' \<rparr>"

definition media_tweet :: tweet where
  "media_tweet = text_tweet\<lparr>media := MediaList [https_only_item]\<rparr>"

text \<open>Sample worlds: one where everything works; one whose file cannot be opened; one whose
  file breaks after one line; one whose transport refuses every message; and three for
  media, with the first URL dead, with the first URL dead and the transport refusing, and
  with every URL dead.\<close>

definition world_ok :: environment where
  "world_ok =
     \<lparr> head_reply = (\<lambda>h u. Status 200), post_reply = (\<lambda>h q. Accepted),
       io_reply = (\<lambda>h. Completed) \<rparr>"

definition world_readonly :: environment where
  "world_readonly =
     \<lparr> head_reply = (\<lambda>h u. Status 200), post_reply = (\<lambda>h q. Accepted),
       io_reply = (\<lambda>h. OpenFailed ''Permission denied'') \<rparr>"

definition world_read_breaks :: environment where
  "world_read_breaks =
     \<lparr> head_reply = (\<lambda>h u. Status 200), post_reply = (\<lambda>h q. Accepted),
       io_reply = (\<lambda>h. TransferFailed 1 ''Input/output error'') \<rparr>"

definition world_refusing :: environment where
  "world_refusing =
     \<lparr> head_reply = (\<lambda>h u. Status 200), post_reply = (\<lambda>h q. Refused None []),
       io_reply = (\<lambda>h. Completed) \<rparr>"

definition world_first_dead :: environment where
  "world_first_dead =
     \<lparr> head_reply = (\<lambda>h u. if u = ''https://a'' then Status 404 else Status 200),
       post_reply = (\<lambda>h q. Accepted), io_reply = (\<lambda>h. Completed) \<rparr>"

definition world_first_dead_refusing :: environment where
  "world_first_dead_refusing =
     \<lparr> head_reply = (\<lambda>h u. if u = ''https://a'' then Status 404 else Status 200),
       post_reply = (\<lambda>h q. Refused None []), io_reply = (\<lambda>h. Completed) \<rparr>"

definition world_all_dead :: environment where
  "world_all_dead =
     \<lparr> head_reply = (\<lambda>h u. Status 404), post_reply = (\<lambda>h q. Accepted),
       io_reply = (\<lambda>h. Completed) \<rparr>"

text \<open>Two seen sets of 10,001 identifiers, each listed in an order of iteration: one
  non-numeric identifier with the numbers 1 to 10,000; and the number 0 followed by 2,001
  non-numeric identifiers and the numbers 1 to 7,999.\<close>

definition mixed_ids :: "string list" where
  "mixed_ids = ''abc'' # map str_nat [1..<10001]"

definition tie_ids :: "string list" where
  "tie_ids = str_nat 0 # map (\<lambda>n. CHR ''a'' # str_nat n) [0..<2001] @ map str_nat [1..<8000]"

text \<open>The probes of a trace, each with its verdict.\<close>

fun probes :: "event list \<Rightarrow> (string \<times> bool) list" where
  "probes [] = []"
| "probes (Head u r # es) = (u, r = Status 200) # probes es"
| "probes (e # es) = probes es"

text \<open>The transport call the first loop makes for an item that passed its probe.\<close>

definition media_request :: "string \<Rightarrow> string \<Rightarrow> string \<Rightarrow> media_item \<Rightarrow> request option" where
  "media_request bot_token chat_id message m =
     (if lower (type_or_unknown m) \<in> set [''photo'', ''image'']
      then Some (SendPhoto bot_token chat_id (the (url m)) message)
      else if lower (type_or_unknown m) \<in> set [''video'', ''animated_gif'']
      then Some (SendVideo bot_token chat_id (the (url m)) message)
      else None)"


section \<open>The sanitizer escapes every special character\<close>

lemma replace_then_escape:
  assumes "c \<notin> set cs" and "b \<notin> set cs"
  shows "concat (map (\<lambda>x. if x \<in> set cs then [b, x] else [x]) (str_replace c [b, c] t))
       = concat (map (\<lambda>x. if x \<in> set (c # cs) then [b, x] else [x]) t)"
  using assms by (induction t) (auto simp: str_replace_def)

lemma fold_replace:
  "distinct cs \<Longrightarrow> b \<notin> set cs \<Longrightarrow>
   fold (\<lambda>ch t. str_replace ch [b, ch] t) cs t
     = concat (map (\<lambda>x. if x \<in> set cs then [b, x] else [x]) t)"
proof (induction cs arbitrary: t)
  case Nil
  then show ?case by (induction t) auto
next
  case (Cons c cs)
  then show ?case using replace_then_escape[of c cs b t] by simp
qed

lemma distinct_special_chars: "distinct special_chars"
  by (simp add: special_chars_def)

lemma backslash_not_special: "backslash \<notin> set special_chars"
  by (simp add: special_chars_def backslash_def)

lemma escape_markdown_v2_Some: "escape_markdown_v2 (Some t) = concat (map escape_char t)"
proof (cases "t = []")
  case True
  then show ?thesis by (simp add: escape_markdown_v2_def)
next
  case False
  then show ?thesis
    using fold_replace[OF distinct_special_chars backslash_not_special, of t]
    by (simp add: escape_markdown_v2_def escape_char_def[abs_def])
qed





section \<open>Effects of the operations on the state\<close>

lemma same_data_refl [simp]: "same_data s s"
  by (simp add: same_data_def)

lemma same_data_trans: "same_data s s1 \<Longrightarrow> same_data s1 s2 \<Longrightarrow> same_data s s2"
  by (simp add: same_data_def)

lemma same_data_print [simp]: "same_data s (print m s') = same_data s s'"
  by (simp add: same_data_def print_def)

lemma same_data_emit [simp]: "same_data s (emit e s') = same_data s s'"
  by (simp add: same_data_def emit_def)

lemma same_data_print_left [simp]: "same_data (print m s) s' = same_data s s'"
  by (simp add: same_data_def print_def)

lemma same_data_emit_left [simp]: "same_data (emit e s) s' = same_data s s'"
  by (simp add: same_data_def emit_def)

lemma trace_print [simp]: "trace (print m s) = trace s"
  by (simp add: print_def)

lemma trace_emit [simp]: "trace (emit e s) = trace s @ [e]"
  by (simp add: emit_def)

lemma console_print [simp]: "console (print m s) = console s @ [m]"
  by (simp add: print_def)

lemma console_emit [simp]: "console (emit e s) = console s"
  by (simp add: emit_def)

lemma validate_media_url_frame:
  assumes "validate_media_url env u s = (b, s')"
  shows "same_data s s'" and "trace s' = trace s @ [Head u (head_reply env (trace s) u)]"
    and "b = (head_reply env (trace s) u = Status 200)"
  using assms by (auto simp: validate_media_url_def Let_def split: head_outcome.splits)

lemma send_telegram_photo_frame:
  assumes "send_telegram_photo env c u m k s = (b, s')"
  shows "same_data s s'"
    and "trace s' = trace s @ [Post (SendPhoto k c u m) (post_reply env (trace s) (SendPhoto k c u m))]"
    and "b = (post_reply env (trace s) (SendPhoto k c u m) = Accepted)"
  using assms by (auto simp: send_telegram_photo_def Let_def split: response.splits)

lemma send_telegram_video_frame:
  assumes "send_telegram_video env c u m k s = (b, s')"
  shows "same_data s s'"
    and "trace s' = trace s @ [Post (SendVideo k c u m) (post_reply env (trace s) (SendVideo k c u m))]"
    and "b = (post_reply env (trace s) (SendVideo k c u m) = Accepted)"
  using assms by (auto simp: send_telegram_video_def Let_def split: response.splits)

lemma send_telegram_message_frame:
  assumes "send_telegram_message env c m k s = (r, s')"
  shows "same_data s s'"
    and "trace s' = trace s @ [Post (SendMessage k c m) (post_reply env (trace s) (SendMessage k c m))]"
  using assms by (auto simp: send_telegram_message_def Let_def split: response.splits)


lemma posts_append [simp]: "posts (xs @ ys) = posts xs @ posts ys"
  by (simp add: posts_def)

lemma posts_simps [simp]:
  "posts [] = []"
  "posts (Post q r # es) = Post q r # posts es"
  "posts (Head u h # es) = posts es"
  "posts (Sleep n # es) = posts es"
  "posts (Search qs n # es) = posts es"
  "posts (FileRead io # es) = posts es"
  "posts (FileAppend l io # es) = posts es"
  "posts (FileRewrite ls io # es) = posts es"
  by (simp_all add: posts_def)

lemma media_loop_frame:
  "media_loop env c m k items s = (b, s') \<Longrightarrow>
   same_data s s' \<and> (\<exists>es. trace s' = trace s @ es \<and> (b \<longrightarrow> posts es \<noteq> []))"
proof (induction items arbitrary: s)
  case Nil
  then show ?case by simp
next
  case (Cons a items)
  show ?case
  proof (cases "truthy (url a)")
    case False
    with Cons show ?thesis by simp
  next
    case True
    obtain v s1 where v: "validate_media_url env (the (url a)) s = (v, s1)"
      by (cases "validate_media_url env (the (url a)) s")
    note f1 = validate_media_url_frame(1,2)[OF v]
    obtain p s2 where p: "send_telegram_photo env c (the (url a)) m k s1 = (p, s2)"
      by (cases "send_telegram_photo env c (the (url a)) m k s1")
    note f2 = send_telegram_photo_frame(1,2)[OF p]
    obtain q s3 where q: "send_telegram_video env c (the (url a)) m k s1 = (q, s3)"
      by (cases "send_telegram_video env c (the (url a)) m k s1")
    note f3 = send_telegram_video_frame(1,2)[OF q]
    from Cons.prems True v p q
    consider (skip) s0 where "media_loop env c m k items s0 = (b, s')" "same_data s s0"
                 "\<exists>es. trace s0 = trace s @ es"
      | (sent) "b" "s' = s2 \<or> s' = s3"
      using f1 f2 f3
      by (auto simp: Let_def split: if_splits bool.splits intro: same_data_trans)
    then show ?thesis
    proof cases
      case skip
      from Cons.IH[OF skip(1)] skip(2,3) show ?thesis
        by (auto intro: same_data_trans)
    next
      case sent
      then show ?thesis using f1 f2 f3 Cons.prems True v p q
        by (auto simp: Let_def split: if_splits bool.splits intro: same_data_trans)
    qed
  qed
qed


lemma send_telegram_message_with_media_frame:
  assumes "send_telegram_message_with_media env c m k items s = (r, s')"
  shows "same_data s s' \<and> (\<exists>es. trace s' = trace s @ es \<and> posts es \<noteq> [])"
proof (cases "items = None \<or> items = Some []")
  case True
  with assms have "send_telegram_message env c m k s = (r, s')"
    by (auto simp: send_telegram_message_with_media_def)
  from send_telegram_message_frame[OF this] show ?thesis by simp
next
  case False
  then obtain a ms where items: "items = Some (a # ms)"
    by (cases items) (auto simp: neq_Nil_conv)
  obtain b s1 where l: "media_loop env c m k (a # ms) s = (b, s1)"
    by (cases "media_loop env c m k (a # ms) s")
  from media_loop_frame[OF l] obtain es where
    f: "same_data s s1" "trace s1 = trace s @ es" "b \<longrightarrow> posts es \<noteq> []"
    by blast
  show ?thesis
  proof (cases b)
    case True
    with assms items l f show ?thesis
      by (auto simp: send_telegram_message_with_media_def)
  next
    case False
    with assms items l have
      "send_telegram_message env c (fallback_message m (a # ms)) k
         (print ''Media failed, sending as text with links...'' s1) = (r, s')"
      by (simp add: send_telegram_message_with_media_def)
    from send_telegram_message_frame[OF this] f show ?thesis
      by (auto intro: same_data_trans)
  qed
qed

lemma first_working_url_frame:
  "first_working_url env us s = (r, s') \<Longrightarrow>
   same_data s s' \<and> (\<exists>es. trace s' = trace s @ es \<and> posts es = [])"
proof (induction us arbitrary: s)
  case Nil
  then show ?case by simp
next
  case (Cons u us)
  obtain v s1 where v: "validate_media_url env u s = (v, s1)"
    by (cases "validate_media_url env u s")
  note f = validate_media_url_frame(1,2)[OF v]
  show ?case
  proof (cases v)
    case True
    with Cons.prems v f show ?thesis by auto
  next
    case False
    with Cons.prems v have "first_working_url env us s1 = (r, s')" by simp
    from Cons.IH[OF this] f show ?thesis by (auto intro: same_data_trans)
  qed
qed

lemma probe_media_frame:
  "same_data s (probe_media env ms s)
   \<and> (\<exists>es. trace (probe_media env ms s) = trace s @ es \<and> posts es = [])"
proof (induction ms arbitrary: s)
  case Nil
  then show ?case by simp
next
  case (Cons m ms)
  obtain r s1 where g: "get_best_media_url env m s = (r, s1)"
    by (cases "get_best_media_url env m s")
  then have "first_working_url env (possible_urls m) s = (r, s1)"
    by (simp add: get_best_media_url_def)
  from first_working_url_frame[OF this] Cons.IH[of s1] g show ?case
    by (auto intro: same_data_trans)
qed

lemma delivery_frame:
  assumes "delivery cfg env t s = (r, s2)"
  shows "store s2 = store s" and "sent_tweets s2 = sent_tweets s"
    and "tweet_count s2 = tweet_count s + 1" and "new_tweets_sent s2 = new_tweets_sent s"
    and "duplicates_skipped s2 = duplicates_skipped s"
    and "\<exists>es. trace s2 = trace s @ es \<and> posts es \<noteq> []"
    and "ending s2 = ending s"
proof -
  let ?s0 = "s\<lparr>tweet_count := tweet_count s + 1\<rparr>"
  let ?s1 = "probe_media env (case media_items_of t of None \<Rightarrow> [] | Some ms \<Rightarrow> ms) ?s0"
  from probe_media_frame[of ?s0 env] obtain es1 where
    p: "same_data ?s0 ?s1" "trace ?s1 = trace ?s0 @ es1"
    by blast
  from assms have "send_telegram_message_with_media env (TELEGRAM_CHAT_ID cfg)
      (telegram_message t) (TELEGRAM_BOT_TOKEN cfg) (media_items_of t) ?s1 = (r, s2)"
    unfolding delivery_def .
  from send_telegram_message_with_media_frame[OF this] obtain es2 where
    d: "same_data ?s1 s2" "trace s2 = trace ?s1 @ es2" "posts es2 \<noteq> []"
    by blast
  from p d show "store s2 = store s" "sent_tweets s2 = sent_tweets s"
    "tweet_count s2 = tweet_count s + 1" "new_tweets_sent s2 = new_tweets_sent s"
    "duplicates_skipped s2 = duplicates_skipped s"
    by (simp_all add: same_data_def)
  from p d show "\<exists>es. trace s2 = trace s @ es \<and> posts es \<noteq> []" by auto
  from p d show "ending s2 = ending s" by (simp add: same_data_def)
qed

lemma handle_tweet_duplicate:
  "str_int (ident t) \<in> sent_tweets s \<Longrightarrow>
   handle_tweet cfg env t s =
     (None, print (''Skipping duplicate tweet ID: '' @ str_int (ident t))
              (s\<lparr>tweet_count := tweet_count s + 1, duplicates_skipped := duplicates_skipped s + 1\<rparr>))"
  by (simp add: handle_tweet_def Let_def)

lemma handle_tweet_unconfigured:
  "str_int (ident t) \<notin> sent_tweets s \<Longrightarrow> \<not> configured cfg \<Longrightarrow>
   handle_tweet cfg env t s =
     (None, print ''Telegram credentials not configured''
              (probe_media env (case media_items_of t of None \<Rightarrow> [] | Some ms \<Rightarrow> ms)
                 (s\<lparr>tweet_count := tweet_count s + 1\<rparr>)))"
  by (simp add: handle_tweet_def Let_def)

lemma handle_tweet_delivering:
  "str_int (ident t) \<notin> sent_tweets s \<Longrightarrow> configured cfg \<Longrightarrow>
   handle_tweet cfg env t s =
     (case delivery cfg env t s of
        (Inl e, s2) \<Rightarrow> (Some e, s2)
      | (Inr True, s2) \<Rightarrow>
          (None,
           emit (Sleep 10)
             ((save_sent_tweet env (str_int (ident t))
                 (s2\<lparr>sent_tweets := insert (str_int (ident t)) (sent_tweets s2)\<rparr>))
                \<lparr>new_tweets_sent := new_tweets_sent s2 + 1\<rparr>))
      | (Inr False, s2) \<Rightarrow> (None, emit (Sleep 10) (print ''Failed to send to Telegram'' s2)))"
  by (simp add: handle_tweet_def delivery_def Let_def)


lemma save_sent_tweet_simps [simp]:
  "sent_tweets (save_sent_tweet env i s) = sent_tweets s"
  "new_tweets_sent (save_sent_tweet env i s) = new_tweets_sent s"
  "tweet_count (save_sent_tweet env i s) = tweet_count s"
  "duplicates_skipped (save_sent_tweet env i s) = duplicates_skipped s"
  "trace (save_sent_tweet env i s) = trace s @ [FileAppend i (io_reply env (trace s))]"
  by (simp_all add: save_sent_tweet_def Let_def emit_def print_def with_file_def
      split: io_outcome.splits)

lemma state_simps [simp]:
  "store (emit e s) = store s" "sent_tweets (emit e s) = sent_tweets s"
  "new_tweets_sent (emit e s) = new_tweets_sent s" "tweet_count (emit e s) = tweet_count s"
  "duplicates_skipped (emit e s) = duplicates_skipped s" "ending (emit e s) = ending s"
  "store (print m s) = store s" "sent_tweets (print m s) = sent_tweets s"
  "new_tweets_sent (print m s) = new_tweets_sent s" "tweet_count (print m s) = tweet_count s"
  "duplicates_skipped (print m s) = duplicates_skipped s" "ending (print m s) = ending s"
  by (simp_all add: emit_def print_def)

lemma write_text_simps [simp]:
  "write_text [] f = f" "write_text (c # w) f = write_text w (put_char c f)"
  "write_text (w @ text2) f = write_text text2 (write_text w f)"
  by (simp_all add: write_text_def)

lemma write_plain:
  "\<forall>x\<in>set (c # w). x \<noteq> newline \<and> x \<noteq> carriage_return \<Longrightarrow>
   write_text (c # w) (ls, e) =
     (if e = Unterminated \<and> ls \<noteq> [] then butlast ls @ [last ls @ c # w] else ls @ [c # w],
      Unterminated)"
proof (induction w rule: rev_induct)
  case Nil
  then show ?case by simp
next
  case (snoc x xs)
  from snoc.prems have "\<forall>x\<in>set (c # xs). x \<noteq> newline \<and> x \<noteq> carriage_return"
    and x: "x \<noteq> newline" "x \<noteq> carriage_return"
    by simp_all
  from snoc.IH[OF this(1)]
  have "write_text (c # xs) (ls, e) =
     (if e = Unterminated \<and> ls \<noteq> [] then butlast ls @ [last ls @ c # xs] else ls @ [c # xs],
      Unterminated)" .
  moreover have "write_text (c # xs @ [x]) (ls, e) = put_char x (write_text (c # xs) (ls, e))"
    using write_text_simps(3)[of "c # xs" "[x]" "(ls, e)"] by simp
  ultimately show ?case using x by (simp add: butlast_append)
qed

lemma write_line:
  assumes "\<forall>x\<in>set w. x \<noteq> newline \<and> x \<noteq> carriage_return" and "w \<noteq> []"
  shows "write_text (w @ [newline]) (ls, e) =
     (if e = Unterminated \<and> ls \<noteq> [] then butlast ls @ [last ls @ w] else ls @ [w],
      Terminated)"
proof -
  from assms(2) obtain c rest where t: "w = c # rest" by (cases w) auto
  from assms(1) have "\<forall>x\<in>set (c # rest). x \<noteq> newline \<and> x \<noteq> carriage_return"
    unfolding t .
  from write_plain[OF this, of ls e] show ?thesis
    unfolding t write_text_simps(3) by simp
qed

lemma write_part:
  assumes "\<forall>x\<in>set w. x \<noteq> newline \<and> x \<noteq> carriage_return" and "0 < k" and "k \<le> length w"
  shows "write_text (take k (w @ [newline])) (ls, e) =
     (if e = Unterminated \<and> ls \<noteq> [] then butlast ls @ [last ls @ take k w]
      else ls @ [take k w],
      Unterminated)"
proof -
  from assms(2,3) obtain c rest where t: "take k w = c # rest"
    by (cases "take k w") auto
  have "set (take k w) \<subseteq> set w" by (rule set_take_subset)
  with assms(1) have "\<forall>x\<in>set (c # rest). x \<noteq> newline \<and> x \<noteq> carriage_return"
    unfolding t[symmetric] by blast
  from write_plain[OF this, of ls e] assms(3) show ?thesis
    by (simp add: t)
qed

lemma opened_for_append_eq:
  "opened_for_append s =
     (lines_of (store s), if store s = None then Terminated else ending s)"
  by (simp add: opened_for_append_def lines_of_def split: option.splits)

lemma opened_for_append_cong:
  "store a = store b \<Longrightarrow> ending a = ending b \<Longrightarrow> opened_for_append a = opened_for_append b"
  by (cases "store b") (simp_all add: opened_for_append_def)

lemma file_save_sent_tweet:
  "store (save_sent_tweet env i s) =
     (case io_reply env (trace s) of
        Completed \<Rightarrow> Some (fst (write_text (i @ [newline]) (opened_for_append s)))
      | OpenFailed e \<Rightarrow> store s
      | TransferFailed k e \<Rightarrow> Some (fst (write_text (take k (i @ [newline])) (opened_for_append s))))"
  "ending (save_sent_tweet env i s) =
     (case io_reply env (trace s) of
        Completed \<Rightarrow> snd (write_text (i @ [newline]) (opened_for_append s))
      | OpenFailed e \<Rightarrow> ending s
      | TransferFailed k e \<Rightarrow> snd (write_text (take k (i @ [newline])) (opened_for_append s)))"
proof -
  have o: "opened_for_append (emit ev s) = opened_for_append s" for ev
    by (intro opened_for_append_cong) simp_all
  show "store (save_sent_tweet env i s) =
     (case io_reply env (trace s) of
        Completed \<Rightarrow> Some (fst (write_text (i @ [newline]) (opened_for_append s)))
      | OpenFailed e \<Rightarrow> store s
      | TransferFailed k e \<Rightarrow> Some (fst (write_text (take k (i @ [newline])) (opened_for_append s))))"
    by (simp add: save_sent_tweet_def Let_def with_file_def o del: write_text_simps
        split: io_outcome.splits)
  show "ending (save_sent_tweet env i s) =
     (case io_reply env (trace s) of
        Completed \<Rightarrow> snd (write_text (i @ [newline]) (opened_for_append s))
      | OpenFailed e \<Rightarrow> ending s
      | TransferFailed k e \<Rightarrow> snd (write_text (take k (i @ [newline])) (opened_for_append s)))"
    by (simp add: save_sent_tweet_def Let_def with_file_def o del: write_text_simps
        split: io_outcome.splits)
qed

lemma ascii_digit_digit_char: "d < 10 \<Longrightarrow> ascii_digit (digit_char d)"
  by (simp add: ascii_digit_def digit_char_def)

lemma str_nat_digits: "list_all ascii_digit (str_nat n) \<and> str_nat n \<noteq> []"
proof (induction n rule: str_nat.induct)
  case (1 n)
  show ?case
  proof (cases "n < 10")
    case True
    then show ?thesis by (simp add: str_nat.simps[of n] ascii_digit_digit_char)
  next
    case False
    with 1 show ?thesis by (simp add: str_nat.simps[of n] ascii_digit_digit_char)
  qed
qed

lemma str_int_plain:
  "\<forall>x\<in>set (str_int i). x \<noteq> newline \<and> x \<noteq> carriage_return" "str_int i \<noteq> []"
proof -
  have "\<not> ascii_digit newline" "\<not> ascii_digit carriage_return"
    by (simp_all add: ascii_digit_def newline_def carriage_return_def)
  moreover have "CHR ''-'' \<noteq> newline" "CHR ''-'' \<noteq> carriage_return"
    by (simp_all add: newline_def carriage_return_def)
  ultimately show "\<forall>x\<in>set (str_int i). x \<noteq> newline \<and> x \<noteq> carriage_return"
    using str_nat_digits[of "nat i"] str_nat_digits[of "nat (- i)"]
    by (auto simp: str_int_def list_all_iff)
  show "str_int i \<noteq> []"
    using str_nat_digits[of "nat i"] by (simp add: str_int_def)
qed

lemma delivery_no_media:
  "media t = NoMedia \<Longrightarrow>
   delivery cfg env t s =
     send_telegram_message env (TELEGRAM_CHAT_ID cfg) (telegram_message t)
       (TELEGRAM_BOT_TOKEN cfg) (s\<lparr>tweet_count := tweet_count s + 1\<rparr>)"
  by (simp add: delivery_def media_items_of_def send_telegram_message_with_media_def)

lemma ident_text_tweet: "str_int (ident text_tweet) = ''42''"
  by code_simp

lemma media_text_tweet: "media text_tweet = NoMedia"
  by (simp add: text_tweet_def)

lemma configured_default: "configured default_config"
  by (simp add: configured_def default_config_def)

lemma not_configured_unconfigured: "\<not> configured unconfigured"
  by (simp add: configured_def unconfigured_def)

lemma fresh_state_simps [simp]:
  "sent_tweets fresh_state = {}" "store fresh_state = None" "trace fresh_state = []"
  "console fresh_state = []" "new_tweets_sent fresh_state = 0" "tweet_count fresh_state = 0"
  "duplicates_skipped fresh_state = 0" "ending fresh_state = Terminated"
  by (simp_all add: fresh_state_def)

lemma open_line_state_simps [simp]:
  "sent_tweets open_line_state = {}" "store open_line_state = Some [''123'']"
  "trace open_line_state = []" "ending open_line_state = Unterminated"
  by (simp_all add: open_line_state_def)

lemma world_simps [simp]:
  "head_reply world_ok h u = Status 200" "post_reply world_ok h q = Accepted"
  "io_reply world_ok h = Completed"
  "head_reply world_readonly h u = Status 200" "post_reply world_readonly h q = Accepted"
  "io_reply world_readonly h = OpenFailed ''Permission denied''"
  "head_reply world_refusing h u = Status 200" "post_reply world_refusing h q = Refused None []"
  "io_reply world_refusing h = Completed"
  by (simp_all add: world_ok_def world_readonly_def world_refusing_def)

lemma delivery_accepted:
  "fst (delivery default_config world_ok text_tweet fresh_state) = Inr True"
  "fst (delivery default_config world_readonly text_tweet fresh_state) = Inr True"
  "trace (snd (delivery default_config world_ok text_tweet fresh_state))
     = [Post (SendMessage (TELEGRAM_BOT_TOKEN default_config) (TELEGRAM_CHAT_ID default_config)
          (telegram_message text_tweet)) Accepted]"
  by (simp_all add: delivery_no_media media_text_tweet send_telegram_message_def Let_def)

lemma delivery_refused:
  "delivery default_config world_refusing text_tweet fresh_state
     = (Inr False,
        print (''ERROR: Telegram API error: No description. Response: '')
          (emit (Post (SendMessage (TELEGRAM_BOT_TOKEN default_config)
                   (TELEGRAM_CHAT_ID default_config) (telegram_message text_tweet))
                   (Refused None []))
             (fresh_state\<lparr>tweet_count := 1\<rparr>)))"
  by (simp add: delivery_no_media media_text_tweet send_telegram_message_def Let_def
        description_or_default_def)

section \<open>The loop body: deduplication, recording and pause\<close>

lemma save_sent_tweet_plain:
  assumes "\<forall>x\<in>set i. x \<noteq> newline \<and> x \<noteq> carriage_return" and "i \<noteq> []"
  shows "io_reply env (trace s) = Completed \<or> (io_reply env (trace s) = TransferFailed k e \<and> length i < k) \<Longrightarrow>
         store (save_sent_tweet env i s)
           = Some (if ending s = Unterminated \<and> lines_of (store s) \<noteq> []
                   then butlast (lines_of (store s)) @ [last (lines_of (store s)) @ i]
                   else lines_of (store s) @ [i])
         \<and> ending (save_sent_tweet env i s) = Terminated"
    and "io_reply env (trace s) = TransferFailed k e \<Longrightarrow> 0 < k \<Longrightarrow> k \<le> length i \<Longrightarrow>
         store (save_sent_tweet env i s)
           = Some (if ending s = Unterminated \<and> lines_of (store s) \<noteq> []
                   then butlast (lines_of (store s)) @ [last (lines_of (store s)) @ take k i]
                   else lines_of (store s) @ [take k i])
         \<and> ending (save_sent_tweet env i s) = Unterminated"
    and "io_reply env (trace s) = TransferFailed 0 e \<Longrightarrow>
         store (save_sent_tweet env i s) = Some (lines_of (store s))
         \<and> ending (save_sent_tweet env i s) = (if store s = None then Terminated else ending s)"
    and "io_reply env (trace s) = OpenFailed e \<Longrightarrow>
         store (save_sent_tweet env i s) = store s
         \<and> ending (save_sent_tweet env i s) = ending s"
proof -
  note w = write_line[OF assms, of "lines_of (store s)" "if store s = None then Terminated else ending s"]
  have n: "store s = None \<Longrightarrow> lines_of (store s) = []"
    by (simp add: lines_of_def)
  show "io_reply env (trace s) = Completed \<or> (io_reply env (trace s) = TransferFailed k e \<and> length i < k) \<Longrightarrow>
         store (save_sent_tweet env i s)
           = Some (if ending s = Unterminated \<and> lines_of (store s) \<noteq> []
                   then butlast (lines_of (store s)) @ [last (lines_of (store s)) @ i]
                   else lines_of (store s) @ [i])
         \<and> ending (save_sent_tweet env i s) = Terminated"
    using w n by (auto simp: file_save_sent_tweet opened_for_append_eq)
  show "io_reply env (trace s) = TransferFailed k e \<Longrightarrow> 0 < k \<Longrightarrow> k \<le> length i \<Longrightarrow>
         store (save_sent_tweet env i s)
           = Some (if ending s = Unterminated \<and> lines_of (store s) \<noteq> []
                   then butlast (lines_of (store s)) @ [last (lines_of (store s)) @ take k i]
                   else lines_of (store s) @ [take k i])
         \<and> ending (save_sent_tweet env i s) = Unterminated"
    using write_part[OF assms(1), of k "lines_of (store s)"
            "if store s = None then Terminated else ending s"] n
    by (auto simp: file_save_sent_tweet opened_for_append_eq)
  show "io_reply env (trace s) = TransferFailed 0 e \<Longrightarrow>
         store (save_sent_tweet env i s) = Some (lines_of (store s))
         \<and> ending (save_sent_tweet env i s) = (if store s = None then Terminated else ending s)"
    by (simp add: file_save_sent_tweet opened_for_append_eq)
  show "io_reply env (trace s) = OpenFailed e \<Longrightarrow>
         store (save_sent_tweet env i s) = store s
         \<and> ending (save_sent_tweet env i s) = ending s"
    by (simp add: file_save_sent_tweet)
qed

lemma console_save_sent_tweet:
  "console (save_sent_tweet env i s) =
     console s @ (case io_reply env (trace s) of
                    Completed \<Rightarrow> []
                  | OpenFailed e \<Rightarrow> [''Error saving tweet ID: '' @ e]
                  | TransferFailed k e \<Rightarrow> [''Error saving tweet ID: '' @ e])"
  by (simp add: save_sent_tweet_def Let_def with_file_def emit_def print_def
      split: io_outcome.splits)

lemma handle_tweet_delivered:
  assumes "str_int (ident t) \<notin> sent_tweets s" and "configured cfg"
    and "delivery cfg env t s = (Inr True, s2)"
  shows "sent_tweets (snd (handle_tweet cfg env t s)) = insert (str_int (ident t)) (sent_tweets s)"
    and "store (snd (handle_tweet cfg env t s))
           = store (save_sent_tweet env (str_int (ident t)) (s\<lparr>trace := trace s2\<rparr>))"
    and "ending (snd (handle_tweet cfg env t s))
           = ending (save_sent_tweet env (str_int (ident t)) (s\<lparr>trace := trace s2\<rparr>))"
    and "console (snd (handle_tweet cfg env t s))
           = console s2 @ (case io_reply env (trace s2) of
                             Completed \<Rightarrow> []
                           | OpenFailed e \<Rightarrow> [''Error saving tweet ID: '' @ e]
                           | TransferFailed k e \<Rightarrow> [''Error saving tweet ID: '' @ e])"
proof -
  from assms show "console (snd (handle_tweet cfg env t s))
           = console s2 @ (case io_reply env (trace s2) of
                             Completed \<Rightarrow> []
                           | OpenFailed e \<Rightarrow> [''Error saving tweet ID: '' @ e]
                           | TransferFailed k e \<Rightarrow> [''Error saving tweet ID: '' @ e])"
    by (simp add: handle_tweet_delivering console_save_sent_tweet)
next
  note f = delivery_frame(1,2,7)[OF assms(3)]
  let ?a = "s2\<lparr>sent_tweets := insert (str_int (ident t)) (sent_tweets s2)\<rparr>"
  let ?b = "s\<lparr>trace := trace s2\<rparr>"
  have o: "opened_for_append ?a = opened_for_append ?b"
    using f by (intro opened_for_append_cong) simp_all
  from assms f show "sent_tweets (snd (handle_tweet cfg env t s))
      = insert (str_int (ident t)) (sent_tweets s)"
    by (simp add: handle_tweet_delivering)
  have "store (save_sent_tweet env (str_int (ident t)) ?a)
      = store (save_sent_tweet env (str_int (ident t)) ?b)"
    unfolding file_save_sent_tweet o using f by (cases "io_reply env (trace s2)") simp_all
  with assms f show "store (snd (handle_tweet cfg env t s))
           = store (save_sent_tweet env (str_int (ident t)) ?b)"
    by (simp add: handle_tweet_delivering)
  have "ending (save_sent_tweet env (str_int (ident t)) ?a)
      = ending (save_sent_tweet env (str_int (ident t)) ?b)"
    unfolding file_save_sent_tweet o using f by (cases "io_reply env (trace s2)") simp_all
  with assms f show "ending (snd (handle_tweet cfg env t s))
           = ending (save_sent_tweet env (str_int (ident t)) ?b)"
    by (simp add: handle_tweet_delivering)
qed

lemma delivery_no_media_accepted:
  assumes "media t = NoMedia"
    and "post_reply env (trace s)
           (SendMessage (TELEGRAM_BOT_TOKEN cfg) (TELEGRAM_CHAT_ID cfg) (telegram_message t)) = Accepted"
  shows "delivery cfg env t s
     = (Inr True,
        emit (Post (SendMessage (TELEGRAM_BOT_TOKEN cfg) (TELEGRAM_CHAT_ID cfg) (telegram_message t))
                Accepted)
          (s\<lparr>tweet_count := tweet_count s + 1\<rparr>))"
  using assms by (simp add: delivery_no_media send_telegram_message_def Let_def)

text \<open>
  C1 (amended). For a tweet examined in a cycle, the identifier enters the in-memory seen
  set exactly when the delivery call was made and returned success. In that case the
  identifier followed by a line feed is written at the end of the store. When the append
  completes, the identifier is a new last line of the store, unless the store ended in a line
  without terminator: then the identifier continues that line. When the file cannot be
  opened, the store stays as it was. When the write breaks off, the store has the characters
  that went through: nothing, a part of the identifier left without terminator, or all of
  it. A failure of the append is printed and goes no further. In every other case seen set
  and store are unchanged.
\<close>

theorem seen_set_records_delivered_posts:
  "(let i = str_int (ident t);
        ls = lines_of (store s);
        with_text = (\<lambda>x. if ending s = Unterminated \<and> ls \<noteq> [] then butlast ls @ [last ls @ x]
                          else ls @ [x]);
        delivered = (i \<notin> sent_tweets s \<and> configured cfg \<and> fst (delivery cfg env t s) = Inr True);
        io = io_reply env (trace (snd (delivery cfg env t s)));
        s' = snd (handle_tweet cfg env t s)
    in ((i \<notin> sent_tweets s \<and> i \<in> sent_tweets s') = delivered)
       \<and> (delivered \<longrightarrow>
            sent_tweets s' = insert i (sent_tweets s)
            \<and> (io = Completed \<longrightarrow>
                 store s' = Some (with_text i) \<and> ending s' = Terminated
                 \<and> console s' = console (snd (delivery cfg env t s)))
            \<and> (\<forall>e. io = OpenFailed e \<longrightarrow>
                 store s' = store s \<and> ending s' = ending s
                 \<and> console s' = console (snd (delivery cfg env t s))
                                  @ [''Error saving tweet ID: '' @ e])
            \<and> (\<forall>k e. io = TransferFailed k e \<longrightarrow>
                 console s' = console (snd (delivery cfg env t s))
                              @ [''Error saving tweet ID: '' @ e]
                 \<and> (k = 0 \<longrightarrow> store s' = Some ls
                    \<and> ending s' = (if store s = None then Terminated else ending s))
                 \<and> (0 < k \<and> k \<le> length i \<longrightarrow>
                      store s' = Some (with_text (take k i)) \<and> ending s' = Unterminated)
                 \<and> (length i < k \<longrightarrow> store s' = Some (with_text i) \<and> ending s' = Terminated)))
       \<and> (\<not> delivered \<longrightarrow>
            sent_tweets s' = sent_tweets s \<and> store s' = store s \<and> ending s' = ending s))"
proof (cases "str_int (ident t) \<in> sent_tweets s")
  case True
  then show ?thesis by (simp add: handle_tweet_duplicate Let_def)
next
  case new: False
  show ?thesis
  proof (cases "configured cfg")
    case False
    have "same_data (s\<lparr>tweet_count := tweet_count s + 1\<rparr>)
            (probe_media env (case media_items_of t of None \<Rightarrow> [] | Some ms \<Rightarrow> ms)
               (s\<lparr>tweet_count := tweet_count s + 1\<rparr>))"
      using probe_media_frame by blast
    with new False show ?thesis
      by (simp add: handle_tweet_unconfigured same_data_def Let_def)
  next
    case True
    obtain r s2 where d: "delivery cfg env t s = (r, s2)"
      by (cases "delivery cfg env t s")
    note f = delivery_frame(1,2,7)[OF d]
    show ?thesis
    proof (cases "r = Inr True")
      case False
      with new True d f show ?thesis
        by (cases r) (auto simp: handle_tweet_delivering Let_def)
    next
      case yes: True
      with d have d': "delivery cfg env t s = (Inr True, s2)" by simp
      note h = handle_tweet_delivered[OF new True d']
      note p = save_sent_tweet_plain[OF str_int_plain, of env "s\<lparr>trace := trace s2\<rparr>"]
      show ?thesis
        unfolding Let_def h(1,2,3) using new True d' p(1,2,3,4) h(4)
        by (auto simp del: save_sent_tweet_simps)
    qed
  qed
qed

theorem seen_set_records_delivered_posts_witness:
  "str_int (ident text_tweet) \<notin> sent_tweets fresh_state \<and> configured default_config
   \<and> fst (delivery default_config world_ok text_tweet fresh_state) = Inr True
   \<and> sent_tweets (snd (handle_tweet default_config world_ok text_tweet fresh_state)) = {''42''}
   \<and> store (snd (handle_tweet default_config world_ok text_tweet fresh_state)) = Some [''42'']
   \<and> fst (delivery default_config world_readonly text_tweet fresh_state) = Inr True
   \<and> store (snd (handle_tweet default_config world_readonly text_tweet fresh_state)) = None
   \<and> str_int (ident text_tweet) \<notin> sent_tweets open_line_state
   \<and> fst (delivery default_config world_ok text_tweet open_line_state) = Inr True
   \<and> store (snd (handle_tweet default_config world_ok text_tweet open_line_state))
       = Some [''12342'']"
  using seen_set_records_delivered_posts[of text_tweet fresh_state default_config world_ok]
    seen_set_records_delivered_posts[of text_tweet fresh_state default_config world_readonly]
    seen_set_records_delivered_posts[of text_tweet open_line_state default_config world_ok]
  by (simp add: configured_default delivery_accepted ident_text_tweet lines_of_def Let_def
        delivery_no_media_accepted media_text_tweet)

theorem file_append_may_fail_counterexample:
  "str_int (ident text_tweet) \<notin> sent_tweets fresh_state
   \<and> fst (delivery default_config world_readonly text_tweet fresh_state) = Inr True
   \<and> str_int (ident text_tweet) \<in> sent_tweets (snd (handle_tweet default_config world_readonly text_tweet fresh_state))
   \<and> store fresh_state = None
   \<and> store (snd (handle_tweet default_config world_readonly text_tweet fresh_state)) = None
   \<and> str_int (ident text_tweet) \<notin> sent_tweets open_line_state
   \<and> fst (delivery default_config world_ok text_tweet open_line_state) = Inr True
   \<and> store open_line_state = Some [''123''] \<and> ending open_line_state = Unterminated
   \<and> store (snd (handle_tweet default_config world_ok text_tweet open_line_state))
       = Some [''12342'']
   \<and> str_int (ident text_tweet) \<notin> set [''12342'']"
proof -
  have d1: "delivery default_config world_readonly text_tweet fresh_state
      = (Inr True,
         emit (Post (SendMessage (TELEGRAM_BOT_TOKEN default_config)
                 (TELEGRAM_CHAT_ID default_config) (telegram_message text_tweet)) Accepted)
           (fresh_state\<lparr>tweet_count := tweet_count fresh_state + 1\<rparr>))"
    by (intro delivery_no_media_accepted media_text_tweet) simp
  have d2: "delivery default_config world_ok text_tweet open_line_state
      = (Inr True,
         emit (Post (SendMessage (TELEGRAM_BOT_TOKEN default_config)
                 (TELEGRAM_CHAT_ID default_config) (telegram_message text_tweet)) Accepted)
           (open_line_state\<lparr>tweet_count := tweet_count open_line_state + 1\<rparr>))"
    by (intro delivery_no_media_accepted media_text_tweet) simp
  have n1: "str_int (ident text_tweet) \<notin> sent_tweets fresh_state"
    and n2: "str_int (ident text_tweet) \<notin> sent_tweets open_line_state"
    by simp_all
  note h1 = handle_tweet_delivered[OF n1 configured_default d1]
  note h2 = handle_tweet_delivered[OF n2 configured_default d2]
  have p1: "store (save_sent_tweet world_readonly (str_int (ident text_tweet)) a) = store a" for a
    using save_sent_tweet_plain(4)[OF str_int_plain, of world_readonly a "''Permission denied''"]
    by simp
  have p2: "store (save_sent_tweet world_ok (str_int (ident text_tweet)) a)
      = Some (if ending a = Unterminated \<and> lines_of (store a) \<noteq> []
              then butlast (lines_of (store a)) @ [last (lines_of (store a)) @ str_int (ident text_tweet)]
              else lines_of (store a) @ [str_int (ident text_tweet)])" for a
    using save_sent_tweet_plain(1)[OF str_int_plain, of world_ok a] by simp
  have a: "store (snd (handle_tweet default_config world_readonly text_tweet fresh_state)) = None"
    unfolding h1(2) p1 by simp
  have b: "store (snd (handle_tweet default_config world_ok text_tweet open_line_state))
       = Some [''12342'']"
    unfolding h2(2) p2 by (simp add: lines_of_def ident_text_tweet)
  from a b h1(1) show ?thesis
    by (simp add: d1 d2 ident_text_tweet)
qed

text \<open>
  C2 (amended). A tweet of the stream leads to calls to the transport exactly when its
  identifier is not in the seen set and both credentials are set; the delivery call is then
  the one \<open>delivery\<close> describes. A tweet whose identifier is in the seen set is counted
  as a duplicate and nothing else changes: no call, no write to the store, the sent counter
  as before, no exception.
\<close>

theorem delivery_attempted_iff_new_and_configured:
  "((posts (trace (snd (handle_tweet cfg env t s))) \<noteq> posts (trace s))
      = (str_int (ident t) \<notin> sent_tweets s \<and> configured cfg))
   \<and> (str_int (ident t) \<notin> sent_tweets s \<and> configured cfg \<longrightarrow>
        prefix (trace (snd (delivery cfg env t s))) (trace (snd (handle_tweet cfg env t s))))
   \<and> (str_int (ident t) \<in> sent_tweets s \<longrightarrow>
        handle_tweet cfg env t s =
          (None, print (''Skipping duplicate tweet ID: '' @ str_int (ident t))
                   (s\<lparr>tweet_count := tweet_count s + 1,
                      duplicates_skipped := duplicates_skipped s + 1\<rparr>)))"
proof (cases "str_int (ident t) \<in> sent_tweets s")
  case True
  then show ?thesis by (simp add: handle_tweet_duplicate)
next
  case new: False
  show ?thesis
  proof (cases "configured cfg")
    case False
    obtain es where "trace (probe_media env (case media_items_of t of None \<Rightarrow> [] | Some ms \<Rightarrow> ms)
               (s\<lparr>tweet_count := tweet_count s + 1\<rparr>)) = trace (s\<lparr>tweet_count := tweet_count s + 1\<rparr>) @ es"
        "posts es = []"
      using probe_media_frame by blast
    with new False show ?thesis
      by (simp add: handle_tweet_unconfigured)
  next
    case True
    obtain r s2 where d: "delivery cfg env t s = (r, s2)"
      by (cases "delivery cfg env t s")
    from delivery_frame(6)[OF d] obtain es where es: "trace s2 = trace s @ es" "posts es \<noteq> []"
      by blast
    show ?thesis
    proof (cases r)
      case (Inl e)
      with new True d es show ?thesis by (simp add: handle_tweet_delivering)
    next
      case (Inr b)
      with new True d es show ?thesis
        by (cases b) (simp_all add: handle_tweet_delivering)
    qed
  qed
qed

theorem delivery_attempted_iff_new_and_configured_witness:
  "str_int (ident text_tweet) \<notin> sent_tweets fresh_state \<and> configured default_config
   \<and> posts (trace (snd (handle_tweet default_config world_ok text_tweet fresh_state)))
       \<noteq> posts (trace fresh_state)
   \<and> str_int (ident text_tweet) \<in> sent_tweets (fresh_state\<lparr>sent_tweets := {''42''}\<rparr>)
   \<and> fst (handle_tweet default_config world_ok text_tweet (fresh_state\<lparr>sent_tweets := {''42''}\<rparr>)) = None"
  using delivery_attempted_iff_new_and_configured[of default_config world_ok text_tweet fresh_state]
    delivery_attempted_iff_new_and_configured[of default_config world_ok text_tweet
      "fresh_state\<lparr>sent_tweets := {''42''}\<rparr>"]
  by (simp add: configured_default ident_text_tweet)

theorem unconfigured_transport_counterexample:
  "str_int (ident text_tweet) \<notin> sent_tweets fresh_state
   \<and> posts (trace (snd (handle_tweet unconfigured world_ok text_tweet fresh_state))) = []
   \<and> trace (snd (handle_tweet unconfigured world_ok text_tweet fresh_state)) = []"
  by (simp add: handle_tweet_unconfigured not_configured_unconfigured media_items_of_def
        media_text_tweet)

text \<open>
  C7 (amended). When the delivery of a new tweet is attempted: after a success the
  identifier is in the seen set, the sent counter is one higher, the append to the store is
  issued and the engine sleeps 10 seconds; after a failure the engine prints the failure,
  leaves seen set, store and counter as they were, and sleeps 10 seconds as well.
\<close>

theorem pause_follows_every_delivery:
  "str_int (ident t) \<notin> sent_tweets s \<and> configured cfg \<longrightarrow>
     (fst (delivery cfg env t s) = Inr True \<longrightarrow>
        fst (handle_tweet cfg env t s) = None
        \<and> sent_tweets (snd (handle_tweet cfg env t s)) = insert (str_int (ident t)) (sent_tweets s)
        \<and> new_tweets_sent (snd (handle_tweet cfg env t s)) = new_tweets_sent s + 1
        \<and> trace (snd (handle_tweet cfg env t s))
            = trace (snd (delivery cfg env t s))
              @ [FileAppend (str_int (ident t)) (io_reply env (trace (snd (delivery cfg env t s)))),
                 Sleep 10])
     \<and> (fst (delivery cfg env t s) = Inr False \<longrightarrow>
        fst (handle_tweet cfg env t s) = None
        \<and> sent_tweets (snd (handle_tweet cfg env t s)) = sent_tweets s
        \<and> store (snd (handle_tweet cfg env t s)) = store s
        \<and> new_tweets_sent (snd (handle_tweet cfg env t s)) = new_tweets_sent s
        \<and> console (snd (handle_tweet cfg env t s))
            = console (snd (delivery cfg env t s)) @ [''Failed to send to Telegram'']
        \<and> trace (snd (handle_tweet cfg env t s)) = trace (snd (delivery cfg env t s)) @ [Sleep 10])"
proof -
  obtain r s2 where d: "delivery cfg env t s = (r, s2)"
    by (cases "delivery cfg env t s")
  note f = delivery_frame(1,2,4)[OF d]
  show ?thesis using d f
    by (auto simp: handle_tweet_delivering)
qed

theorem pause_follows_every_delivery_witness:
  "str_int (ident text_tweet) \<notin> sent_tweets fresh_state \<and> configured default_config
   \<and> fst (delivery default_config world_refusing text_tweet fresh_state) = Inr False
   \<and> sent_tweets (snd (handle_tweet default_config world_refusing text_tweet fresh_state)) = {}
   \<and> trace (snd (handle_tweet default_config world_refusing text_tweet fresh_state))
       = trace (snd (delivery default_config world_refusing text_tweet fresh_state)) @ [Sleep 10]
   \<and> fst (delivery default_config world_ok text_tweet fresh_state) = Inr True
   \<and> new_tweets_sent (snd (handle_tweet default_config world_ok text_tweet fresh_state)) = 1
   \<and> last (trace (snd (handle_tweet default_config world_ok text_tweet fresh_state))) = Sleep 10"
  using pause_follows_every_delivery[of text_tweet fresh_state default_config world_refusing]
    pause_follows_every_delivery[of text_tweet fresh_state default_config world_ok]
  by (simp add: configured_default delivery_refused delivery_accepted)

theorem pause_after_failed_delivery_counterexample:
  "str_int (ident text_tweet) \<notin> sent_tweets fresh_state \<and> configured default_config
   \<and> fst (delivery default_config world_refusing text_tweet fresh_state) = Inr False
   \<and> last (trace (snd (handle_tweet default_config world_refusing text_tweet fresh_state))) = Sleep 10"
  by (simp add: configured_default delivery_refused handle_tweet_delivering)



section \<open>A fault in the stream\<close>

lemma acks_append [simp]: "acks (xs @ ys) = acks xs + acks ys"
  by (simp add: acks_def)

lemma acks_Nil [simp]: "acks [] = 0"
  by (simp add: acks_def)

lemma acks_Cons [simp]: "acks (e # es) = (if is_ack e then 1 else 0) + acks es"
  by (simp add: acks_def)


lemma send_telegram_message_result:
  "fst (send_telegram_message env c m k s) =
     (case post_reply env (trace s) (SendMessage k c m) of
        Accepted \<Rightarrow> Inr True
      | Refused d body \<Rightarrow> Inr False
      | RequestException x body \<Rightarrow> Inr False
      | OtherException x \<Rightarrow> Inl x)"
  by (simp add: send_telegram_message_def Let_def split: response.splits)

text \<open>One round of the first loop of the delivery: the events it adds hold no text message
  and no acknowledgement, unless the round ends the loop with an acknowledged media
  message.\<close>

lemma media_loop_round:
  "(\<exists>s0 pre. media_loop env c m k (a # items) s = media_loop env c m k items s0
        \<and> trace s0 = trace s @ pre \<and> (\<forall>e\<in>set pre. \<not> is_text_post e \<and> \<not> is_ack e))
   \<or> (\<exists>s2 pre q. media_loop env c m k (a # items) s = (True, s2)
        \<and> trace s2 = trace s @ pre @ [Post q Accepted]
        \<and> (\<forall>e\<in>set pre. \<not> is_text_post e \<and> \<not> is_ack e)
        \<and> is_media_ack (Post q Accepted))"
proof (cases "truthy (url a)")
  case False
  then have "media_loop env c m k (a # items) s = media_loop env c m k items s
      \<and> trace s = trace s @ [] \<and> (\<forall>e\<in>set []. \<not> is_text_post e \<and> \<not> is_ack e)"
    by simp
  then show ?thesis by blast
next
  case True
  let ?u = "the (url a)"
  let ?h = "Head ?u (head_reply env (trace s) ?u)"
  obtain v s1 where v: "validate_media_url env ?u s = (v, s1)"
    by (cases "validate_media_url env ?u s")
  note f1 = validate_media_url_frame(2)[OF v]
  show ?thesis
  proof (cases v)
    case False
    let ?s0 = "print (''Media URL not accessible, skipping: '' @ ?u) s1"
    from True v False f1
    have "media_loop env c m k (a # items) s = media_loop env c m k items ?s0
        \<and> trace ?s0 = trace s @ [?h] \<and> (\<forall>e\<in>set [?h]. \<not> is_text_post e \<and> \<not> is_ack e)"
      by (simp add: Let_def)
    then show ?thesis by blast
  next
    case passed: True
    consider (photo) "lower (type_or_unknown a) \<in> set [''photo'', ''image'']"
      | (video) "lower (type_or_unknown a) \<notin> set [''photo'', ''image'']"
          "lower (type_or_unknown a) \<in> set [''video'', ''animated_gif'']"
      | (other) "lower (type_or_unknown a) \<notin> set [''photo'', ''image'']"
          "lower (type_or_unknown a) \<notin> set [''video'', ''animated_gif'']"
      by blast
    then show ?thesis
    proof cases
      case photo
      let ?q = "SendPhoto k c ?u m"
      obtain p s2 where p: "send_telegram_photo env c ?u m k s1 = (p, s2)"
        by (cases "send_telegram_photo env c ?u m k s1")
      note f2 = send_telegram_photo_frame(2,3)[OF p]
      show ?thesis
      proof (cases p)
        case True
        with f1 f2 have t: "trace s2 = trace s @ [?h] @ [Post ?q Accepted]" by simp
        from True passed \<open>truthy (url a)\<close> v p photo
        have "media_loop env c m k (a # items) s = (True, s2)"
          by (simp add: Let_def)
        with t have "media_loop env c m k (a # items) s = (True, s2)
            \<and> trace s2 = trace s @ [?h] @ [Post ?q Accepted]
            \<and> (\<forall>e\<in>set [?h]. \<not> is_text_post e \<and> \<not> is_ack e)
            \<and> is_media_ack (Post ?q Accepted)"
          by simp
        then show ?thesis by blast
      next
        case False
        let ?r = "post_reply env (trace s1) ?q"
        from False f2 have r: "?r \<noteq> Accepted" by simp
        then have na: "\<not> is_ack (Post ?q ?r)" by (cases ?r) simp_all
        from False passed \<open>truthy (url a)\<close> v p photo
        have "media_loop env c m k (a # items) s = media_loop env c m k items s2"
          by (simp add: Let_def)
        with f1 f2 na
        have "media_loop env c m k (a # items) s = media_loop env c m k items s2
            \<and> trace s2 = trace s @ [?h, Post ?q ?r]
            \<and> (\<forall>e\<in>set [?h, Post ?q ?r]. \<not> is_text_post e \<and> \<not> is_ack e)"
          by simp
        then show ?thesis by blast
      qed
    next
      case video
      let ?q = "SendVideo k c ?u m"
      obtain p s2 where p: "send_telegram_video env c ?u m k s1 = (p, s2)"
        by (cases "send_telegram_video env c ?u m k s1")
      note f2 = send_telegram_video_frame(2,3)[OF p]
      show ?thesis
      proof (cases p)
        case True
        with f1 f2 have t: "trace s2 = trace s @ [?h] @ [Post ?q Accepted]" by simp
        from True passed \<open>truthy (url a)\<close> v p video
        have "media_loop env c m k (a # items) s = (True, s2)"
          by (simp add: Let_def)
        with t have "media_loop env c m k (a # items) s = (True, s2)
            \<and> trace s2 = trace s @ [?h] @ [Post ?q Accepted]
            \<and> (\<forall>e\<in>set [?h]. \<not> is_text_post e \<and> \<not> is_ack e)
            \<and> is_media_ack (Post ?q Accepted)"
          by simp
        then show ?thesis by blast
      next
        case False
        let ?r = "post_reply env (trace s1) ?q"
        from False f2 have r: "?r \<noteq> Accepted" by simp
        then have na: "\<not> is_ack (Post ?q ?r)" by (cases ?r) simp_all
        from False passed \<open>truthy (url a)\<close> v p video
        have "media_loop env c m k (a # items) s = media_loop env c m k items s2"
          by (simp add: Let_def)
        with f1 f2 na
        have "media_loop env c m k (a # items) s = media_loop env c m k items s2
            \<and> trace s2 = trace s @ [?h, Post ?q ?r]
            \<and> (\<forall>e\<in>set [?h, Post ?q ?r]. \<not> is_text_post e \<and> \<not> is_ack e)"
          by simp
        then show ?thesis by blast
      qed
    next
      case other
      from passed \<open>truthy (url a)\<close> v other f1
      have "media_loop env c m k (a # items) s = media_loop env c m k items s1
          \<and> trace s1 = trace s @ [?h] \<and> (\<forall>e\<in>set [?h]. \<not> is_text_post e \<and> \<not> is_ack e)"
        by (simp add: Let_def)
      then show ?thesis by blast
    qed
  qed
qed

lemma is_media_ack_is_ack: "is_media_ack e \<Longrightarrow> is_ack e"
  by (cases e rule: is_media_ack.cases) simp_all

lemma media_loop_events:
  "media_loop env c m k items s = (b, s') \<Longrightarrow>
   \<exists>es. trace s' = trace s @ es \<and> (\<forall>e\<in>set es. \<not> is_text_post e)
      \<and> (b = (\<exists>e\<in>set es. is_media_ack e)) \<and> acks es = (if b then 1 else 0)"
proof (induction items arbitrary: s)
  case Nil
  then show ?case by simp
next
  case (Cons a items)
  from media_loop_round[of env c m k a items s]
  consider (go) s0 pre where "media_loop env c m k (a # items) s = media_loop env c m k items s0"
      "trace s0 = trace s @ pre" "\<forall>e\<in>set pre. \<not> is_text_post e \<and> \<not> is_ack e"
    | (sent) s2 pre q where "media_loop env c m k (a # items) s = (True, s2)"
      "trace s2 = trace s @ pre @ [Post q Accepted]"
      "\<forall>e\<in>set pre. \<not> is_text_post e \<and> \<not> is_ack e" "is_media_ack (Post q Accepted)"
    by blast
  then show ?case
  proof cases
    case go
    from go(1) Cons.prems have "media_loop env c m k items s0 = (b, s')" by simp
    from Cons.IH[OF this] obtain es where
      es: "trace s' = trace s0 @ es" "\<forall>e\<in>set es. \<not> is_text_post e"
          "b = (\<exists>e\<in>set es. is_media_ack e)" "acks es = (if b then 1 else 0)"
      by blast
    from go(3) have z: "acks pre = 0" "\<forall>e\<in>set pre. \<not> is_media_ack e"
      using is_media_ack_is_ack by (auto simp: acks_def filter_empty_conv)
    from es go(2,3) z
    have "trace s' = trace s @ (pre @ es) \<and> (\<forall>e\<in>set (pre @ es). \<not> is_text_post e)
        \<and> (b = (\<exists>e\<in>set (pre @ es). is_media_ack e)) \<and> acks (pre @ es) = (if b then 1 else 0)"
      by auto
    then show ?thesis by blast
  next
    case sent
    from sent(1) Cons.prems have bs: "b" "s' = s2" by simp_all
    from sent(3) have z: "acks pre = 0"
      by (auto simp: acks_def filter_empty_conv)
    from sent(4) have nt: "\<not> is_text_post (Post q Accepted)"
      by (cases q) simp_all
    from bs sent(2,3,4) z nt
    have "trace s' = trace s @ (pre @ [Post q Accepted])
        \<and> (\<forall>e\<in>set (pre @ [Post q Accepted]). \<not> is_text_post e)
        \<and> (b = (\<exists>e\<in>set (pre @ [Post q Accepted]). is_media_ack e))
        \<and> acks (pre @ [Post q Accepted]) = (if b then 1 else 0)"
      by auto
    then show ?thesis by blast
  qed
qed












section \<open>Loading the seen set\<close>

lemma isspace_newline: "py_isspace newline"
  by (simp add: py_isspace_def newline_def)

lemma strip_line: "strip (l @ [newline]) = strip l"
proof (cases "\<forall>x\<in>set l. py_isspace x")
  case True
  then have a: "dropWhile py_isspace l = []"
    by simp
  from True have "dropWhile py_isspace (l @ [newline]) = dropWhile py_isspace [newline]"
    by (intro dropWhile_append2) simp
  then have b: "dropWhile py_isspace (l @ [newline]) = []"
    using isspace_newline by simp
  show ?thesis unfolding strip_def a b ..
next
  case False
  then obtain x where "x \<in> set l" "\<not> py_isspace x"
    by auto
  then have c: "dropWhile py_isspace (l @ [newline]) = dropWhile py_isspace l @ [newline]"
    by simp
  show ?thesis unfolding strip_def c using isspace_newline by simp
qed

lemma line_ids_eq: "line_ids ls = {strip l | l. l \<in> set ls \<and> strip l \<noteq> []}"
  by (auto simp: line_ids_def strip_line)

lemma strip_samples: "strip ''123'' = ''123''" "strip ''456'' = ''456''"
  by code_simp+

lemma two_line_state_simps [simp]:
  "store two_line_state = Some [''123'', ''456'']" "trace two_line_state = []"
  "console two_line_state = []"
  by (simp_all add: two_line_state_def)

lemma world_read_breaks_simps [simp]:
  "io_reply world_read_breaks h = TransferFailed 1 ''Input/output error''"
  by (simp add: world_read_breaks_def)

text \<open>
  C9 (amended). \<open>load_sent_tweets\<close> returns the lines of the store stripped of surrounding
  white space, without those that are empty after stripping. A store that does not exist
  gives the empty set and changes nothing. A load that fails gives the identifiers of the
  lines read before the failure (none when the file cannot be opened) and prints a warning;
  it never raises.
\<close>

theorem load_sent_tweets_result:
  "(store s = None \<longrightarrow> load_sent_tweets env s = ({}, s))
   \<and> (\<forall>ls. store s = Some ls \<longrightarrow>
        (io_reply env (trace s) = Completed \<longrightarrow>
           fst (load_sent_tweets env s) = {strip l | l. l \<in> set ls \<and> strip l \<noteq> []}
           \<and> console (snd (load_sent_tweets env s)) = console s)
        \<and> (\<forall>e. io_reply env (trace s) = OpenFailed e \<longrightarrow>
             fst (load_sent_tweets env s) = {}
             \<and> console (snd (load_sent_tweets env s))
                 = console s @ [''Error reading sent tweets file: '' @ e])
        \<and> (\<forall>k e. io_reply env (trace s) = TransferFailed k e \<longrightarrow>
             fst (load_sent_tweets env s) = {strip l | l. l \<in> set (take k ls) \<and> strip l \<noteq> []}
             \<and> console (snd (load_sent_tweets env s))
                 = console s @ [''Error reading sent tweets file: '' @ e]))"
  by (simp add: load_sent_tweets_def Let_def line_ids_eq)

theorem load_sent_tweets_result_witness:
  "store fresh_state = None \<and> load_sent_tweets world_ok fresh_state = ({}, fresh_state)
   \<and> store two_line_state = Some [''123'', ''456'']
   \<and> io_reply world_ok (trace two_line_state) = Completed
   \<and> fst (load_sent_tweets world_ok two_line_state) = {''123'', ''456''}
   \<and> io_reply world_readonly (trace two_line_state) = OpenFailed ''Permission denied''
   \<and> fst (load_sent_tweets world_readonly two_line_state) = {}"
proof -
  have e: "{strip l | l. l \<in> set [''123'', ''456''] \<and> strip l \<noteq> []} = {''123'', ''456''}"
    unfolding line_ids_eq[symmetric] by (simp add: line_ids_def strip_line strip_samples)
  from load_sent_tweets_result[of fresh_state world_ok]
  have a: "load_sent_tweets world_ok fresh_state = ({}, fresh_state)" by simp
  from load_sent_tweets_result[of two_line_state world_ok] e
  have b: "fst (load_sent_tweets world_ok two_line_state) = {''123'', ''456''}" by simp
  from load_sent_tweets_result[of two_line_state world_readonly]
  have c: "fst (load_sent_tweets world_readonly two_line_state) = {}" by simp
  from a b c show ?thesis by simp
qed

theorem load_keeps_lines_read_counterexample:
  "store two_line_state = Some [''123'', ''456'']
   \<and> io_reply world_read_breaks (trace two_line_state) = TransferFailed 1 ''Input/output error''
   \<and> fst (load_sent_tweets world_read_breaks two_line_state) = {''123''}"
  by (simp add: load_sent_tweets_def Let_def line_ids_def strip_line strip_samples)


section \<open>Compaction of the seen set\<close>

text \<open>
  C10. For a seen set of at most 10,000 identifiers \<open>cleanup_old_sent_tweets\<close> returns
  the set it was given and leaves the state as it was: the store is not written and no file
  operation is issued. Store or trace change only when the set has more than 10,000
  identifiers.
\<close>

theorem cleanup_leaves_small_sets_alone:
  "(length sent \<le> 10000 \<longrightarrow> cleanup_old_sent_tweets env sent s = (sent, s))
   \<and> (store (snd (cleanup_old_sent_tweets env sent s)) \<noteq> store s
        \<or> trace (snd (cleanup_old_sent_tweets env sent s)) \<noteq> trace s \<longrightarrow> 10000 < length sent)"
  by (auto simp: cleanup_old_sent_tweets_def)

theorem cleanup_leaves_small_sets_alone_witness:
  "length [''1'', ''2''] \<le> 10000
   \<and> cleanup_old_sent_tweets world_ok [''1'', ''2''] fresh_state = ([''1'', ''2''], fresh_state)"
  using cleanup_leaves_small_sets_alone[of "[''1'', ''2'']" world_ok fresh_state] by simp


lemma digit_value_digit_char: "d < 10 \<Longrightarrow> digit_value (digit_char d) = d"
  by (simp add: digit_value_def digit_char_def)

lemma digits_value_str_nat:
  "foldl (\<lambda>a c. 10 * a + digit_value c) 0 (str_nat n) = n"
proof (induction n rule: str_nat.induct)
  case (1 n)
  show ?case
  proof (cases "n < 10")
    case True
    then show ?thesis by (simp add: str_nat.simps[of n] digit_value_digit_char)
  next
    case False
    with 1 show ?thesis by (simp add: str_nat.simps[of n] digit_value_digit_char)
  qed
qed

lemma length_str_nat: "n < 10 ^ k \<Longrightarrow> 0 < k \<Longrightarrow> length (str_nat n) \<le> k"
proof (induction n arbitrary: k rule: str_nat.induct)
  case (1 n)
  show ?case
  proof (cases "n < 10")
    case True
    with 1 show ?thesis by (simp add: str_nat.simps[of n])
  next
    case False
    from "1.prems" obtain j where k: "k = Suc j" by (cases k) auto
    with False "1.prems" have j: "0 < j" by (cases j) auto
    from "1.prems" k have "n div 10 < 10 ^ j" by simp
    from "1.IH"[OF False this j] False k show ?thesis
      by (simp add: str_nat.simps[of n])
  qed
qed

lemma int_of_digits_str_nat: "n < 100000 \<Longrightarrow> int_of_digits (str_nat n) = Some n"
  using str_nat_digits[of n] length_str_nat[of n 5]
  by (simp add: int_of_digits_def digits_value_str_nat)

lemma isdigit_str_nat: "isdigit (str_nat n)"
  using str_nat_digits[of n] by (auto simp: isdigit_def isdigit_char_def list_all_iff)

lemma inj_str_nat: "inj str_nat"
  by (rule injI) (metis digits_value_str_nat)

lemma sort_rank_str_nat: "n < 100000 \<Longrightarrow> sort_rank (str_nat n) = Some n"
  by (simp add: sort_rank_def isdigit_str_nat int_of_digits_str_nat)

lemma not_isdigit_abc: "\<not> isdigit ''abc''"
  by (simp add: isdigit_def isdigit_char_def ascii_digit_def)

lemma sort_rank_abc: "sort_rank ''abc'' = Some 0"
  by (simp add: sort_rank_def not_isdigit_abc)

lemma numeric_ids:
  "distinct (map str_nat [m..<n])" "\<forall>x\<in>set (map str_nat [m..<n]). isdigit x"
  "n \<le> 100000 \<Longrightarrow> \<forall>x\<in>set (map str_nat [m..<n]). sort_rank x \<noteq> None"
  "n \<le> 100000 \<Longrightarrow> map (\<lambda>x. the (sort_rank x)) (map str_nat [m..<n]) = [m..<n]"
  by (auto simp: distinct_map inj_on_def inj_str_nat[THEN injD] isdigit_str_nat
        sort_rank_str_nat comp_def intro!: map_idI)

lemma mixed_ids_facts:
  "distinct mixed_ids" "length mixed_ids = 10001" "\<forall>x\<in>set mixed_ids. sort_rank x \<noteq> None"
proof -
  have "''abc'' \<notin> set (map str_nat [1..<10001])"
    using numeric_ids(2)[of 1 10001] not_isdigit_abc by blast
  then show "distinct mixed_ids"
    unfolding mixed_ids_def using numeric_ids(1)[of 1 10001] by (simp only: distinct.simps simp_thms)
  have "length (map str_nat [1..<10001]) = 10000"
    by simp
  then show "length mixed_ids = 10001"
    unfolding mixed_ids_def by simp
  have "(10001::nat) \<le> 100000" by simp
  from numeric_ids(3)[OF this, of 1] show "\<forall>x\<in>set mixed_ids. sort_rank x \<noteq> None"
    unfolding mixed_ids_def using sort_rank_abc
    by (simp only: set_simps ball_simps) auto
qed

lemma cleanup_failure_returns_input:
  "io_reply env (trace s) \<noteq> Completed \<Longrightarrow> fst (cleanup_old_sent_tweets env sent s) = sent"
  by (simp add: cleanup_old_sent_tweets_def Let_def split: option.splits io_outcome.splits)

lemma cleanup_completed:
  assumes "10000 < length sent" "\<forall>x\<in>set sent. sort_rank x \<noteq> None"
    "io_reply env (trace s) = Completed"
  shows "cleanup_old_sent_tweets env sent s
     = (drop (length sent - 8000) (sort_key (\<lambda>x. the (sort_rank x)) sent),
        (emit (FileRewrite (drop (length sent - 8000) (sort_key (\<lambda>x. the (sort_rank x)) sent)) Completed) s)
          \<lparr>store := Some (drop (length sent - 8000) (sort_key (\<lambda>x. the (sort_rank x)) sent)),
            ending := Terminated\<rparr>)"
proof -
  from assms(2) have "find (\<lambda>x. sort_rank x = None) sent = None"
    by (simp add: find_None_iff)
  with assms(1,3) show ?thesis
    by (simp add: cleanup_old_sent_tweets_def Let_def)
qed

lemma cleanup_failed:
  assumes "10000 < length sent" "\<forall>x\<in>set sent. sort_rank x \<noteq> None"
  shows "io_reply env (trace s) = OpenFailed e \<Longrightarrow>
         console (snd (cleanup_old_sent_tweets env sent s))
           = console s @ [''Error during cleanup: '' @ e]"
    and "io_reply env (trace s) = TransferFailed k e \<Longrightarrow>
         console (snd (cleanup_old_sent_tweets env sent s))
           = console s @ [''Error during cleanup: '' @ e]"
proof -
  from assms(2) have n: "find (\<lambda>x. sort_rank x = None) sent = None"
    by (simp add: find_None_iff)
  show "io_reply env (trace s) = OpenFailed e \<Longrightarrow>
         console (snd (cleanup_old_sent_tweets env sent s))
           = console s @ [''Error during cleanup: '' @ e]"
    using assms(1) n by (simp add: cleanup_old_sent_tweets_def Let_def)
  show "io_reply env (trace s) = TransferFailed k e \<Longrightarrow>
         console (snd (cleanup_old_sent_tweets env sent s))
           = console s @ [''Error during cleanup: '' @ e]"
    using assms(1) n by (simp add: cleanup_old_sent_tweets_def Let_def print_def emit_def)
qed

lemma kept_highest:
  fixes f :: "'a \<Rightarrow> nat"
  assumes "distinct xs" "k \<le> length xs"
  defines "ys \<equiv> sort_key f xs"
  defines "kept \<equiv> drop (length xs - k) ys"
  shows "length kept = k" "distinct kept" "set kept \<subseteq> set xs"
    "\<forall>r\<in>set kept. \<forall>e\<in>set xs - set kept. f e \<le> f r"
proof -
  let ?out = "take (length xs - k) ys"
  have ys: "ys = ?out @ kept" by (simp add: kept_def)
  have len: "length ys = length xs" by (simp add: ys_def)
  have d: "distinct ys" using assms(1) by (simp add: ys_def)
  have st: "set ys = set xs" by (simp add: ys_def)
  show "length kept = k" using assms(2) len by (simp add: kept_def)
  show "distinct kept" using d by (simp add: kept_def)
  show "set kept \<subseteq> set xs" using st set_drop_subset[of "length xs - k" ys] by (simp add: kept_def)
  have "sorted (map f ys)" by (simp add: ys_def)
  then have "sorted (map f ?out @ map f kept)" by (subst (asm) ys) simp
  then have le: "\<forall>e\<in>set ?out. \<forall>r\<in>set kept. f e \<le> f r"
    by (auto simp: sorted_append)
  have "set xs - set kept \<subseteq> set ?out"
    using st by (subst (asm) ys) auto
  with le show "\<forall>r\<in>set kept. \<forall>e\<in>set xs - set kept. f e \<le> f r" by blast
qed


lemma not_isdigit_a: "\<not> isdigit (CHR ''a'' # x)"
  by (simp add: isdigit_def isdigit_char_def ascii_digit_def)

lemma sort_rank_a: "sort_rank (CHR ''a'' # x) = Some 0"
  by (simp add: sort_rank_def not_isdigit_a)

lemma lettered_ids:
  "distinct (map (\<lambda>n. CHR ''a'' # str_nat n) [m..<n])"
  "\<forall>x\<in>set (map (\<lambda>n. CHR ''a'' # str_nat n) [m..<n]). \<not> isdigit x"
  "\<forall>x\<in>set (map (\<lambda>n. CHR ''a'' # str_nat n) [m..<n]). sort_rank x = Some 0"
  "map (\<lambda>x. the (sort_rank x)) (map (\<lambda>n. CHR ''a'' # str_nat n) [m..<n]) = replicate (n - m) 0"
  by (auto simp: distinct_map inj_on_def inj_str_nat[THEN injD] not_isdigit_a sort_rank_a
        comp_def map_replicate_const)

lemma tie_shape:
  assumes "0 < a" "0 < b" "b \<le> 100000"
  shows "distinct (str_nat 0 # map (\<lambda>n. CHR ''a'' # str_nat n) [0..<a] @ map str_nat [1..<b])"
    and "length (str_nat 0 # map (\<lambda>n. CHR ''a'' # str_nat n) [0..<a] @ map str_nat [1..<b])
           = a + b"
    and "\<forall>x\<in>set (str_nat 0 # map (\<lambda>n. CHR ''a'' # str_nat n) [0..<a] @ map str_nat [1..<b]).
           sort_rank x \<noteq> None"
    and "sorted (map (\<lambda>x. the (sort_rank x))
           (str_nat 0 # map (\<lambda>n. CHR ''a'' # str_nat n) [0..<a] @ map str_nat [1..<b]))"
    and "drop a (str_nat 0 # map (\<lambda>n. CHR ''a'' # str_nat n) [0..<a] @ map str_nat [1..<b])
         = (CHR ''a'' # str_nat (a - 1)) # map str_nat [1..<b]"
proof -
  let ?A = "map (\<lambda>n. CHR ''a'' # str_nat n) [0..<a]"
  let ?B = "map str_nat [1..<b]"
  have zB: "str_nat 0 \<notin> set ?B"
  proof
    assume "str_nat 0 \<in> set ?B"
    then obtain x where x: "Suc 0 \<le> x" "str_nat x = str_nat 0" by auto
    from x(2) have "x = 0" by (rule inj_str_nat[THEN injD])
    with x(1) show False by simp
  qed
  have zA: "str_nat 0 \<notin> set ?A"
    using lettered_ids(2)[of 0 a] isdigit_str_nat[of 0] by blast
  note z = zA zB
  have dj: "set ?A \<inter> set ?B = {}"
    using lettered_ids(2)[of 0 a] numeric_ids(2)[of 1 b] by blast
  show "distinct (str_nat 0 # ?A @ ?B)"
    using z dj lettered_ids(1)[of 0 a] numeric_ids(1)[of 1 b] by simp
  show "length (str_nat 0 # ?A @ ?B) = a + b" using assms by simp
  show "\<forall>x\<in>set (str_nat 0 # ?A @ ?B). sort_rank x \<noteq> None"
    using lettered_ids(3)[of 0 a] numeric_ids(3)[OF assms(3), of 1] sort_rank_str_nat[of 0] by auto
  have "map (\<lambda>x. the (sort_rank x)) (str_nat 0 # ?A @ ?B) = 0 # replicate a 0 @ [1..<b]"
    using lettered_ids(4)[of 0 a] numeric_ids(4)[OF assms(3), of 1] by (simp add: sort_rank_str_nat)
  then show "sorted (map (\<lambda>x. the (sort_rank x)) (str_nat 0 # ?A @ ?B))"
    by (simp add: sorted_append)
  from assms obtain a' where a': "a = Suc a'"
    by (cases a) auto
  show "drop a (str_nat 0 # ?A @ ?B) = (CHR ''a'' # str_nat (a - 1)) # ?B"
    unfolding a' by simp
qed

lemma tie_ids_facts:
  "distinct tie_ids" "length tie_ids = 10001" "\<forall>x\<in>set tie_ids. sort_rank x \<noteq> None"
  "sort_key (\<lambda>x. the (sort_rank x)) tie_ids = tie_ids"
  "drop (length tie_ids - 8000) tie_ids = (CHR ''a'' # str_nat 2000) # map str_nat [1..<8000]"
proof -
  have p: "(0::nat) < 2001" "(0::nat) < 8000" "(8000::nat) \<le> 100000" by simp_all
  note t = tie_shape[OF p]
  show "distinct tie_ids" unfolding tie_ids_def by (rule t(1))
  show l: "length tie_ids = 10001" unfolding tie_ids_def using t(2) by simp
  show "\<forall>x\<in>set tie_ids. sort_rank x \<noteq> None" unfolding tie_ids_def by (rule t(3))
  show "sort_key (\<lambda>x. the (sort_rank x)) tie_ids = tie_ids"
    unfolding tie_ids_def by (rule sort_key_id_if_sorted[OF t(4)])
  have "drop 2001 tie_ids = (CHR ''a'' # str_nat 2000) # map str_nat [1..<8000]"
    unfolding tie_ids_def using t(5) by simp
  with l show "drop (length tie_ids - 8000) tie_ids
      = (CHR ''a'' # str_nat 2000) # map str_nat [1..<8000]"
    by simp
qed

lemma cleanup_tie_ids:
  "fst (cleanup_old_sent_tweets world_ok tie_ids fresh_state)
     = (CHR ''a'' # str_nat 2000) # map str_nat [1..<8000]"
proof -
  have len: "10000 < length tie_ids" using tie_ids_facts(2) by simp
  have io: "io_reply world_ok (trace fresh_state) = Completed" by simp
  show ?thesis
    using cleanup_completed[OF len tie_ids_facts(3) io] tie_ids_facts(4,5) by simp
qed

lemma zero_not_kept: "str_nat 0 \<notin> set ((CHR ''a'' # str_nat 2000) # map str_nat [1..<8000])"
proof
  assume "str_nat 0 \<in> set ((CHR ''a'' # str_nat 2000) # map str_nat [1..<8000])"
  then consider "str_nat 0 = CHR ''a'' # str_nat 2000"
    | x where "Suc 0 \<le> x" "str_nat x = str_nat 0"
    by auto
  then show False
  proof cases
    case 1
    then show False using isdigit_str_nat[of 0] not_isdigit_a by metis
  next
    case 2
    from 2(2) have "x = 0" by (rule inj_str_nat[THEN injD])
    with 2(1) show False by simp
  qed
qed

lemma one_kept: "str_nat 1 \<in> set ((CHR ''a'' # str_nat 2000) # map str_nat [1..<8000])"
  by simp

lemma zero_in_tie_ids: "str_nat 0 \<in> set tie_ids"
  by (simp add: tie_ids_def)

text \<open>
  C3 (amended). For a seen set of more than 10,000 identifiers in which every all-digit
  identifier converts to an integer (decimal digits, at most 4,300 of them), when the rewrite
  of the store completes,
  \<open>cleanup_old_sent_tweets\<close> returns exactly 8,000 of the identifiers it was given and
  writes them to the store. Every identifier kept has a rank (the number for a numeric
  identifier, 0 for any other) at least that of every identifier dropped: a numeric
  identifier kept is at least every numeric identifier dropped, and a non-numeric identifier
  is kept only when every numeric identifier dropped is 0. When the rewrite fails, the set is
  returned as it was, and for such a set the error is printed.
\<close>

theorem cleanup_keeps_highest_ranks:
  "(distinct sent \<and> 10000 < length sent \<and> (\<forall>x\<in>set sent. sort_rank x \<noteq> None)
      \<and> io_reply env (trace s) = Completed \<longrightarrow>
      length (fst (cleanup_old_sent_tweets env sent s)) = 8000
      \<and> distinct (fst (cleanup_old_sent_tweets env sent s))
      \<and> set (fst (cleanup_old_sent_tweets env sent s)) \<subseteq> set sent
      \<and> (\<forall>r\<in>set (fst (cleanup_old_sent_tweets env sent s)).
           \<forall>e\<in>set sent - set (fst (cleanup_old_sent_tweets env sent s)).
             the (sort_rank e) \<le> the (sort_rank r)
             \<and> (isdigit r \<and> isdigit e \<longrightarrow> the (int_of_digits e) \<le> the (int_of_digits r))
             \<and> (\<not> isdigit r \<and> isdigit e \<longrightarrow> int_of_digits e = Some 0))
      \<and> store (snd (cleanup_old_sent_tweets env sent s))
          = Some (fst (cleanup_old_sent_tweets env sent s)))
   \<and> (io_reply env (trace s) \<noteq> Completed \<longrightarrow>
        fst (cleanup_old_sent_tweets env sent s) = sent)
   \<and> (10000 < length sent \<and> (\<forall>x\<in>set sent. sort_rank x \<noteq> None) \<longrightarrow>
        (\<forall>e. io_reply env (trace s) = OpenFailed e \<longrightarrow>
           console (snd (cleanup_old_sent_tweets env sent s))
             = console s @ [''Error during cleanup: '' @ e])
        \<and> (\<forall>k e. io_reply env (trace s) = TransferFailed k e \<longrightarrow>
             console (snd (cleanup_old_sent_tweets env sent s))
               = console s @ [''Error during cleanup: '' @ e]))"
proof (intro conjI impI)
  assume a: "distinct sent \<and> 10000 < length sent \<and> (\<forall>x\<in>set sent. sort_rank x \<noteq> None)
      \<and> io_reply env (trace s) = Completed"
  let ?f = "\<lambda>x. the (sort_rank x)"
  let ?kept = "drop (length sent - 8000) (sort_key ?f sent)"
  from a have c: "cleanup_old_sent_tweets env sent s
      = (?kept, (emit (FileRewrite ?kept Completed) s)\<lparr>store := Some ?kept, ending := Terminated\<rparr>)"
    by (intro cleanup_completed) simp_all
  from a have k: "(8000::nat) \<le> length sent" by simp
  from a have d: "distinct sent" by simp
  note h = kept_highest[OF d k, of ?f]
  show "length (fst (cleanup_old_sent_tweets env sent s)) = 8000"
    using h(1) by (simp add: c)
  show "distinct (fst (cleanup_old_sent_tweets env sent s))"
    using h(2) by (simp add: c)
  show "set (fst (cleanup_old_sent_tweets env sent s)) \<subseteq> set sent"
    using h(3) by (simp add: c)
  show "store (snd (cleanup_old_sent_tweets env sent s))
          = Some (fst (cleanup_old_sent_tweets env sent s))"
    by (simp add: c)
  show "\<forall>r\<in>set (fst (cleanup_old_sent_tweets env sent s)).
           \<forall>e\<in>set sent - set (fst (cleanup_old_sent_tweets env sent s)).
             the (sort_rank e) \<le> the (sort_rank r)
             \<and> (isdigit r \<and> isdigit e \<longrightarrow> the (int_of_digits e) \<le> the (int_of_digits r))
             \<and> (\<not> isdigit r \<and> isdigit e \<longrightarrow> int_of_digits e = Some 0)"
  proof (intro ballI)
    fix r e
    assume r: "r \<in> set (fst (cleanup_old_sent_tweets env sent s))"
      and e: "e \<in> set sent - set (fst (cleanup_old_sent_tweets env sent s))"
    from r e h(4) have le: "?f e \<le> ?f r" by (simp add: c)
    from e a have "sort_rank e \<noteq> None" by simp
    then have "isdigit e \<Longrightarrow> int_of_digits e = Some (?f e)"
      by (auto simp: sort_rank_def)
    with le show "the (sort_rank e) \<le> the (sort_rank r)
             \<and> (isdigit r \<and> isdigit e \<longrightarrow> the (int_of_digits e) \<le> the (int_of_digits r))
             \<and> (\<not> isdigit r \<and> isdigit e \<longrightarrow> int_of_digits e = Some 0)"
      by (auto simp: sort_rank_def)
  qed
next
  assume "io_reply env (trace s) \<noteq> Completed"
  then show "fst (cleanup_old_sent_tweets env sent s) = sent"
    by (rule cleanup_failure_returns_input)
next
  assume "10000 < length sent \<and> (\<forall>x\<in>set sent. sort_rank x \<noteq> None)"
  then show "\<forall>e. io_reply env (trace s) = OpenFailed e \<longrightarrow>
           console (snd (cleanup_old_sent_tweets env sent s))
             = console s @ [''Error during cleanup: '' @ e]"
    by (simp add: cleanup_failed)
next
  assume "10000 < length sent \<and> (\<forall>x\<in>set sent. sort_rank x \<noteq> None)"
  then show "\<forall>k e. io_reply env (trace s) = TransferFailed k e \<longrightarrow>
             console (snd (cleanup_old_sent_tweets env sent s))
               = console s @ [''Error during cleanup: '' @ e]"
    by (simp add: cleanup_failed)
qed

theorem cleanup_keeps_highest_ranks_witness:
  "distinct mixed_ids \<and> 10000 < length mixed_ids
   \<and> io_reply world_ok (trace fresh_state) = Completed
   \<and> length (fst (cleanup_old_sent_tweets world_ok mixed_ids fresh_state)) = 8000
   \<and> store (snd (cleanup_old_sent_tweets world_ok mixed_ids fresh_state))
       = Some (fst (cleanup_old_sent_tweets world_ok mixed_ids fresh_state))
   \<and> fst (cleanup_old_sent_tweets world_readonly mixed_ids fresh_state) = mixed_ids
   \<and> console (snd (cleanup_old_sent_tweets world_readonly mixed_ids fresh_state))
       = [''Error during cleanup: Permission denied'']
   \<and> str_nat 1 \<in> set (fst (cleanup_old_sent_tweets world_ok tie_ids fresh_state))
   \<and> str_nat 0 \<in> set tie_ids - set (fst (cleanup_old_sent_tweets world_ok tie_ids fresh_state))
   \<and> isdigit (str_nat 1) \<and> isdigit (str_nat 0)
   \<and> the (int_of_digits (str_nat 0)) \<le> the (int_of_digits (str_nat 1))"
proof -
  have m: "distinct mixed_ids \<and> 10000 < length mixed_ids
     \<and> io_reply world_ok (trace fresh_state) = Completed
     \<and> length (fst (cleanup_old_sent_tweets world_ok mixed_ids fresh_state)) = 8000
     \<and> store (snd (cleanup_old_sent_tweets world_ok mixed_ids fresh_state))
         = Some (fst (cleanup_old_sent_tweets world_ok mixed_ids fresh_state))
     \<and> fst (cleanup_old_sent_tweets world_readonly mixed_ids fresh_state) = mixed_ids
     \<and> console (snd (cleanup_old_sent_tweets world_readonly mixed_ids fresh_state))
         = [''Error during cleanup: Permission denied'']"
    using cleanup_keeps_highest_ranks[of mixed_ids world_ok fresh_state]
      cleanup_keeps_highest_ranks[of mixed_ids world_readonly fresh_state] mixed_ids_facts
    by simp
  have r: "str_nat 1 \<in> set (fst (cleanup_old_sent_tweets world_ok tie_ids fresh_state))"
    using one_kept by (simp only: cleanup_tie_ids)
  have e: "str_nat 0 \<in> set tie_ids - set (fst (cleanup_old_sent_tweets world_ok tie_ids fresh_state))"
    using zero_in_tie_ids zero_not_kept by (simp only: cleanup_tie_ids Diff_iff simp_thms)
  have h: "distinct tie_ids \<and> 10000 < length tie_ids \<and> (\<forall>x\<in>set tie_ids. sort_rank x \<noteq> None)
      \<and> io_reply world_ok (trace fresh_state) = Completed"
    using tie_ids_facts(1,2,3) by simp
  from cleanup_keeps_highest_ranks[of tie_ids world_ok fresh_state] h
  have "\<forall>r\<in>set (fst (cleanup_old_sent_tweets world_ok tie_ids fresh_state)).
           \<forall>e\<in>set tie_ids - set (fst (cleanup_old_sent_tweets world_ok tie_ids fresh_state)).
             the (sort_rank e) \<le> the (sort_rank r)
             \<and> (isdigit r \<and> isdigit e \<longrightarrow> the (int_of_digits e) \<le> the (int_of_digits r))
             \<and> (\<not> isdigit r \<and> isdigit e \<longrightarrow> int_of_digits e = Some 0)"
    by blast
  with r e have "isdigit (str_nat 1) \<and> isdigit (str_nat 0)
      \<longrightarrow> the (int_of_digits (str_nat 0)) \<le> the (int_of_digits (str_nat 1))"
    by blast
  with m r e isdigit_str_nat[of 1] isdigit_str_nat[of 0] show ?thesis by blast
qed

theorem numeric_zero_evicted_counterexample:
  "distinct tie_ids \<and> length tie_ids = 10001
   \<and> io_reply world_ok (trace fresh_state) = Completed
   \<and> isdigit (str_nat 0) \<and> str_nat 0 \<in> set tie_ids
   \<and> str_nat 0 \<notin> set (fst (cleanup_old_sent_tweets world_ok tie_ids fresh_state))
   \<and> \<not> isdigit (CHR ''a'' # str_nat 2000)
   \<and> (CHR ''a'' # str_nat 2000) \<in> set (fst (cleanup_old_sent_tweets world_ok tie_ids fresh_state))"
proof -
  have io: "io_reply world_ok (trace fresh_state) = Completed" by simp
  show ?thesis
    using tie_ids_facts(1,2) io isdigit_str_nat[of 0] zero_in_tie_ids zero_not_kept
      not_isdigit_a[of "str_nat 2000"]
    by (simp only: cleanup_tie_ids) simp
qed

lemma cleanup_write_failure_example:
  "distinct mixed_ids \<and> length mixed_ids = 10001
   \<and> \<not> isdigit (mixed_ids ! 0) \<and> isdigit (mixed_ids ! 1)
   \<and> length (fst (cleanup_old_sent_tweets world_readonly mixed_ids fresh_state)) = 10001"
proof -
  have "mixed_ids ! 0 = ''abc''" "mixed_ids ! 1 = str_nat 1"
    by (simp_all add: mixed_ids_def)
  then show ?thesis
    using mixed_ids_facts(1,2) not_isdigit_abc isdigit_str_nat[of 1]
      cleanup_failure_returns_input[of world_readonly fresh_state mixed_ids]
    by simp
qed



section \<open>The composite delivery and the media resolver\<close>

lemma probes_append [simp]: "probes (xs @ ys) = probes xs @ probes ys"
  by (induction xs rule: probes.induct) auto

lemma first_working_url_None:
  "first_working_url env us s = (None, s') \<Longrightarrow>
   \<exists>es. trace s' = trace s @ es \<and> probes es = map (\<lambda>u. (u, False)) us"
proof (induction us arbitrary: s)
  case Nil
  then show ?case by simp
next
  case (Cons u us)
  obtain v s1 where v: "validate_media_url env u s = (v, s1)"
    by (cases "validate_media_url env u s")
  note f = validate_media_url_frame(2,3)[OF v]
  from Cons.prems v have nv: "\<not> v" and rec: "first_working_url env us s1 = (None, s')"
    by (auto split: bool.splits)
  from Cons.IH[OF rec] obtain es where
    es: "trace s' = trace s1 @ es" "probes es = map (\<lambda>u. (u, False)) us"
    by blast
  from es f nv
  have "trace s' = trace s @ (Head u (head_reply env (trace s) u) # es)
        \<and> probes (Head u (head_reply env (trace s) u) # es) = map (\<lambda>u. (u, False)) (u # us)"
    by simp
  then show ?case by blast
qed

lemma first_working_url_Some:
  "first_working_url env us s = (Some w, s') \<Longrightarrow>
   \<exists>es pre post. trace s' = trace s @ es \<and> us = pre @ w # post
      \<and> probes es = map (\<lambda>u. (u, False)) pre @ [(w, True)]"
proof (induction us arbitrary: s)
  case Nil
  then show ?case by simp
next
  case (Cons u us)
  obtain v s1 where v: "validate_media_url env u s = (v, s1)"
    by (cases "validate_media_url env u s")
  note f = validate_media_url_frame(2,3)[OF v]
  show ?case
  proof (cases v)
    case True
    with Cons.prems v have "w = u" "s' = s1" by auto
    with f True
    have "trace s' = trace s @ [Head u (head_reply env (trace s) u)] \<and> u # us = [] @ w # us
          \<and> probes [Head u (head_reply env (trace s) u)] = map (\<lambda>u. (u, False)) [] @ [(w, True)]"
      by simp
    then show ?thesis by blast
  next
    case False
    with Cons.prems v have rec: "first_working_url env us s1 = (Some w, s')" by simp
    from Cons.IH[OF rec] obtain es pre post where
      es: "trace s' = trace s1 @ es" "us = pre @ w # post"
          "probes es = map (\<lambda>u. (u, False)) pre @ [(w, True)]"
      by blast
    from es f False
    have "trace s' = trace s @ (Head u (head_reply env (trace s) u) # es)
          \<and> u # us = (u # pre) @ w # post
          \<and> probes (Head u (head_reply env (trace s) u) # es)
              = map (\<lambda>u. (u, False)) (u # pre) @ [(w, True)]"
      by simp
    then show ?thesis by blast
  qed
qed

lemma media_loop_reads_type_and_url:
  "map url ms' = map url ms \<Longrightarrow> map mtype ms' = map mtype ms \<Longrightarrow>
   media_loop env c msg k ms' s = media_loop env c msg k ms s"
proof (induction ms arbitrary: ms' s)
  case Nil
  then show ?case by simp
next
  case (Cons m ms)
  then obtain m' rest where ms': "ms' = m' # rest" "url m' = url m" "mtype m' = mtype m"
    "map url rest = map url ms" "map mtype rest = map mtype ms"
    by (cases ms') auto
  from Cons.IH[OF ms'(4,5)] ms'(1,2,3) show ?case
    by (simp add: type_or_unknown_def Let_def split: prod.splits bool.splits)
qed

lemma media_links_reads_type_and_url:
  "map url ms' = map url ms \<Longrightarrow> map mtype ms' = map mtype ms \<Longrightarrow>
   media_links ms' = media_links ms"
proof (induction ms arbitrary: ms')
  case Nil
  then show ?case by simp
next
  case (Cons m ms)
  then obtain m' rest where ms': "ms' = m' # rest" "url m' = url m" "mtype m' = mtype m"
    "map url rest = map url ms" "map mtype rest = map mtype ms"
    by (cases ms') auto
  from Cons.IH[OF ms'(4,5)] ms'(1,2,3) show ?case
    by (simp add: media_links_def type_or_unknown_def)
qed

lemma deliver_with_items:
  assumes "ms \<noteq> []"
  shows "send_telegram_message_with_media env c msg k (Some ms) s =
     (case media_loop env c msg k ms s of
        (True, s1) \<Rightarrow> (Inr True, s1)
      | (False, s1) \<Rightarrow>
          send_telegram_message env c (fallback_message msg ms) k
            (print ''Media failed, sending as text with links...'' s1))"
proof -
  from assms obtain a list where ms: "ms = a # list"
    by (cases ms) auto
  show ?thesis unfolding ms
    by (simp add: send_telegram_message_with_media_def del: media_loop.simps)
qed

lemma deliver_reads_type_and_url:
  assumes "map url ms' = map url ms" and "map mtype ms' = map mtype ms"
  shows "send_telegram_message_with_media env c msg k (Some ms') s
       = send_telegram_message_with_media env c msg k (Some ms) s"
proof (cases "ms = []")
  case True
  with assms show ?thesis by simp
next
  case False
  with assms(1) have ne: "ms' \<noteq> []" by auto
  have fm: "fallback_message msg ms' = fallback_message msg ms"
    using media_links_reads_type_and_url[OF assms] by (simp add: fallback_message_def)
  show ?thesis
    unfolding deliver_with_items[OF ne] deliver_with_items[OF False] fm
      media_loop_reads_type_and_url[OF assms] ..
qed


lemma media_loop_probes_first:
  assumes "truthy (url m)" and "media_loop env c msg k (m # ms) s = (b, s')"
  shows "\<exists>es. trace s' = trace s @ Head (the (url m)) (head_reply env (trace s) (the (url m))) # es"
proof -
  obtain v s1 where v: "validate_media_url env (the (url m)) s = (v, s1)"
    by (cases "validate_media_url env (the (url m)) s")
  note f = validate_media_url_frame(2)[OF v]
  obtain p s2 where p: "send_telegram_photo env c (the (url m)) msg k s1 = (p, s2)"
    by (cases "send_telegram_photo env c (the (url m)) msg k s1")
  note f2 = send_telegram_photo_frame(2)[OF p]
  obtain q s3 where q: "send_telegram_video env c (the (url m)) msg k s1 = (q, s3)"
    by (cases "send_telegram_video env c (the (url m)) msg k s1")
  note f3 = send_telegram_video_frame(2)[OF q]
  from assms v p q
  consider (loop) s0 es0 where "media_loop env c msg k ms s0 = (b, s')" "trace s0 = trace s1 @ es0"
    | (sent) es0 where "trace s' = trace s1 @ es0"
    using f2 f3
    by (auto simp: Let_def split: if_splits bool.splits)
  then have "\<exists>es. trace s' = trace s1 @ es"
  proof cases
    case loop
    from media_loop_frame[OF loop(1)] loop(2) show ?thesis by auto
  next
    case sent
    then show ?thesis by blast
  qed
  with f show ?thesis by auto
qed

lemma media_loop_probe_fails:
  assumes "truthy (url m)" and "head_reply env (trace s) (the (url m)) \<noteq> Status 200"
  shows "\<exists>s1. media_loop env c msg k (m # ms) s = media_loop env c msg k ms s1
            \<and> trace s1 = trace s @ [Head (the (url m)) (head_reply env (trace s) (the (url m)))]
            \<and> same_data s s1"
proof -
  obtain v s1 where v: "validate_media_url env (the (url m)) s = (v, s1)"
    by (cases "validate_media_url env (the (url m)) s")
  note f = validate_media_url_frame[OF v]
  from f(3) assms(2) have nv: "\<not> v" by simp
  let ?s1 = "print (''Media URL not accessible, skipping: '' @ the (url m)) s1"
  from assms(1) v nv have "media_loop env c msg k (m # ms) s = media_loop env c msg k ms ?s1"
    by (simp add: Let_def)
  with f show ?thesis by (intro exI[of _ ?s1]) simp
qed

lemma media_loop_probe_passes:
  assumes "truthy (url m)" and "head_reply env (trace s) (the (url m)) = Status 200"
    and "media_request k c msg m = Some req"
  shows "\<exists>es. trace (snd (media_loop env c msg k (m # ms) s))
           = trace s @ Head (the (url m)) (Status 200)
               # Post req (post_reply env (trace s @ [Head (the (url m)) (Status 200)]) req) # es"
proof -
  let ?u = "the (url m)"
  obtain v s1 where v: "validate_media_url env ?u s = (v, s1)"
    by (cases "validate_media_url env ?u s")
  note f = validate_media_url_frame[OF v]
  from f(3) assms(2) have tv: "v" by simp
  from f(2) assms(2) have t1: "trace s1 = trace s @ [Head ?u (Status 200)]" by simp
  obtain b s' where l: "media_loop env c msg k (m # ms) s = (b, s')"
    by (cases "media_loop env c msg k (m # ms) s")
  obtain p s2 where p: "send_telegram_photo env c ?u msg k s1 = (p, s2)"
    by (cases "send_telegram_photo env c ?u msg k s1")
  note f2 = send_telegram_photo_frame(2)[OF p]
  obtain q s3 where q: "send_telegram_video env c ?u msg k s1 = (q, s3)"
    by (cases "send_telegram_video env c ?u msg k s1")
  note f3 = send_telegram_video_frame(2)[OF q]
  from assms(3) consider (photo) "lower (type_or_unknown m) \<in> set [''photo'', ''image'']"
      "req = SendPhoto k c ?u msg"
    | (video) "lower (type_or_unknown m) \<notin> set [''photo'', ''image'']"
      "lower (type_or_unknown m) \<in> set [''video'', ''animated_gif'']" "req = SendVideo k c ?u msg"
    by (auto simp: media_request_def split: if_splits)
  then have "\<exists>es. trace s' = trace s1 @ Post req (post_reply env (trace s1) req) # es"
  proof cases
    case photo
    show ?thesis
    proof (cases p)
      case True
      with l assms(1) v tv p photo(1) have "s' = s2" by (simp add: Let_def)
      with f2 photo(2) show ?thesis by simp
    next
      case False
      with l assms(1) v tv p photo(1) have "media_loop env c msg k ms s2 = (b, s')"
        by (simp add: Let_def)
      from media_loop_frame[OF this] f2 photo(2) show ?thesis by auto
    qed
  next
    case video
    show ?thesis
    proof (cases q)
      case True
      with l assms(1) v tv q video(1,2) have "s' = s3" by (simp add: Let_def)
      with f3 video(3) show ?thesis by simp
    next
      case False
      with l assms(1) v tv q video(1,2) have "media_loop env c msg k ms s3 = (b, s')"
        by (simp add: Let_def)
      from media_loop_frame[OF this] f3 video(3) show ?thesis by auto
    qed
  qed
  with t1 l show ?thesis by auto
qed

lemma deliver_second_item:
  assumes "url m1 = Some u1" "u1 \<noteq> []" "head_reply env (trace s) u1 \<noteq> Status 200"
    and "url m2 = Some u2" "u2 \<noteq> []"
    and "head_reply env (trace s @ [Head u1 (head_reply env (trace s) u1)]) u2 = Status 200"
    and "media_request k c msg m2 = Some req"
    and "post_reply env (trace s @ [Head u1 (head_reply env (trace s) u1), Head u2 (Status 200)]) req
           = Accepted"
  shows "fst (send_telegram_message_with_media env c msg k (Some [m1, m2]) s) = Inr True"
    and "trace (snd (send_telegram_message_with_media env c msg k (Some [m1, m2]) s))
           = trace s @ [Head u1 (head_reply env (trace s) u1), Head u2 (Status 200), Post req Accepted]"
  using assms
  by (auto simp: send_telegram_message_with_media_def validate_media_url_def Let_def truthy_def
        media_request_def send_telegram_photo_def send_telegram_video_def
      split: head_outcome.splits if_splits)

lemma more_world_simps [simp]:
  "head_reply world_first_dead h u = (if u = ''https://a'' then Status 404 else Status 200)"
  "post_reply world_first_dead h q = Accepted"
  "head_reply world_first_dead_refusing h u = (if u = ''https://a'' then Status 404 else Status 200)"
  "post_reply world_first_dead_refusing h q = Refused None []"
  "head_reply world_all_dead h u = Status 404"
  "post_reply world_all_dead h q = Accepted"
  by (simp_all add: world_first_dead_def world_first_dead_refusing_def world_all_dead_def)

lemma photo_item_simps [simp]:
  "url (photo_item u) = Some u" "mtype (photo_item u) = Some ''photo''"
  by (simp_all add: photo_item_def)

lemma lower_photo: "lower ''photo'' = ''photo''"
  by code_simp

lemma media_request_photo:
  "media_request k c msg (photo_item u) = Some (SendPhoto k c u msg)"
  by (simp add: media_request_def type_or_unknown_def lower_photo)

lemma deliver_on_https_only_item:
  "send_telegram_message_with_media world_ok ''c'' ''m'' ''k'' (Some [https_only_item]) fresh_state
     = (Inr True,
        fresh_state\<lparr>trace := [Post (SendMessage ''k'' ''c'' ''m'') Accepted],
                    console := [''Media failed, sending as text with links...'']\<rparr>)"
  by (simp add: send_telegram_message_with_media_def https_only_item_def truthy_def Let_def
        fallback_message_def media_links_def send_telegram_message_def emit_def print_def)

lemma join_lines:
  "xs \<noteq> [] \<Longrightarrow> sep @ join sep xs = concat (map (\<lambda>x. sep @ x) xs)"
  by (induction sep xs rule: join.induct) simp_all

lemma fallback_message_explicit:
  "fallback_message msg items =
     msg @ (if filter (\<lambda>m. truthy (url m)) items = [] then []
            else [newline, newline] @ ''*Media*:''
                 @ concat (map (\<lambda>m. [newline] @ ''  '' @ [backslash] @ ''- [''
                                   @ escape_markdown_v2
                                       (Some (if type_or_unknown m = [] then ''Link''
                                              else type_or_unknown m))
                                   @ '']('' @ the (url m) @ '')'')
                            (filter (\<lambda>m. truthy (url m)) items)))"
proof -
  let ?linked = "filter (\<lambda>m. truthy (url m)) items"
  let ?line = "\<lambda>m. ''  '' @ [backslash] @ ''- [''
                    @ escape_markdown_v2
                        (Some (if type_or_unknown m = [] then ''Link'' else type_or_unknown m))
                    @ '']('' @ the (url m) @ '')''"
  have "map (\<lambda>m. ''  '' @ [backslash] @ ''- ''
                @ create_safe_url_link (url m) (Some (type_or_unknown m))) ?linked
      = map ?line ?linked"
    by (rule map_cong) (auto simp: create_safe_url_link_def truthy_def Let_def)
  then have l: "media_links items = map ?line ?linked"
    by (simp add: media_links_def)
  show ?thesis
  proof (cases "?linked = []")
    case True
    with l show ?thesis by (simp add: fallback_message_def)
  next
    case False
    with l have ne: "media_links items \<noteq> []" by simp
    from join_lines[OF ne, of "[newline]"] l
    have "[newline] @ join [newline] (media_links items)
        = concat (map (\<lambda>m. [newline] @ ?line m) ?linked)"
      by (simp add: comp_def)
    with ne False show ?thesis
      by (simp add: fallback_message_def)
  qed
qed

lemma deliver_falls_back:
  assumes "\<forall>e\<in>set (drop (length (trace s))
              (trace (snd (send_telegram_message_with_media env c msg k (Some items) s)))).
             \<not> is_media_ack e"
  shows "\<exists>es. trace (snd (send_telegram_message_with_media env c msg k (Some items) s))
                = trace s @ es
                  @ [Post (SendMessage k c (fallback_message msg items))
                       (post_reply env (trace s @ es) (SendMessage k c (fallback_message msg items)))]
            \<and> (\<forall>e\<in>set es. \<not> is_text_post e)
            \<and> fst (send_telegram_message_with_media env c msg k (Some items) s)
                = (case post_reply env (trace s @ es) (SendMessage k c (fallback_message msg items)) of
                     Accepted \<Rightarrow> Inr True
                   | Refused d body \<Rightarrow> Inr False
                   | RequestException x body \<Rightarrow> Inr False
                   | OtherException x \<Rightarrow> Inl x)"
proof -
  let ?D = "send_telegram_message_with_media env c msg k (Some items) s"
  let ?q = "SendMessage k c (fallback_message msg items)"
  have sent: "\<exists>es. trace (snd ?D) = trace s @ es @ [Post ?q (post_reply env (trace s @ es) ?q)]
            \<and> (\<forall>e\<in>set es. \<not> is_text_post e)
            \<and> fst ?D = (case post_reply env (trace s @ es) ?q of
                     Accepted \<Rightarrow> Inr True
                   | Refused d body \<Rightarrow> Inr False
                   | RequestException x body \<Rightarrow> Inr False
                   | OtherException x \<Rightarrow> Inl x)"
    if d: "?D = send_telegram_message env c (fallback_message msg items) k a"
      and a: "trace a = trace s @ es" "\<forall>e\<in>set es. \<not> is_text_post e" for a es
  proof -
    obtain r s2 where t: "send_telegram_message env c (fallback_message msg items) k a = (r, s2)"
      by (cases "send_telegram_message env c (fallback_message msg items) k a")
    from send_telegram_message_frame(2)[OF t]
      send_telegram_message_result[of env c "fallback_message msg items" k a] d t a
    have "trace (snd ?D) = trace s @ es @ [Post ?q (post_reply env (trace s @ es) ?q)]
            \<and> (\<forall>e\<in>set es. \<not> is_text_post e)
            \<and> fst ?D = (case post_reply env (trace s @ es) ?q of
                     Accepted \<Rightarrow> Inr True
                   | Refused d body \<Rightarrow> Inr False
                   | RequestException x body \<Rightarrow> Inr False
                   | OtherException x \<Rightarrow> Inl x)"
      by simp
    then show ?thesis by blast
  qed
  show ?thesis
  proof (cases "items = []")
    case True
    then have "?D = send_telegram_message env c (fallback_message msg items) k s"
      by (simp add: send_telegram_message_with_media_def fallback_message_def media_links_def)
    from sent[OF this, of "[]"] show ?thesis by simp
  next
    case False
    obtain b s1 where l: "media_loop env c msg k items s = (b, s1)"
      by (cases "media_loop env c msg k items s")
    from media_loop_events[OF l] obtain es where
      es: "trace s1 = trace s @ es" "\<forall>e\<in>set es. \<not> is_text_post e"
          "b = (\<exists>e\<in>set es. is_media_ack e)"
      by blast
    have nb: "\<not> b"
    proof
      assume b
      with l have "?D = (Inr True, s1)"
        by (simp add: deliver_with_items[OF False])
      with assms es(1) have "\<forall>e\<in>set es. \<not> is_media_ack e" by simp
      with es(3) \<open>b\<close> show False by simp
    qed
    let ?a = "print ''Media failed, sending as text with links...'' s1"
    from nb l have "?D = send_telegram_message env c (fallback_message msg items) k ?a"
      by (simp add: deliver_with_items[OF False])
    from sent[OF this, of es] es show ?thesis by simp
  qed
qed

text \<open>
  C5 (amended). For two media items where the first item's URL fails its probe, the second
  item's URL passes, the second item is of a type that is sent (photo, image, video,
  animated_gif) and the transport acknowledges that media message, the delivery makes exactly
  these calls: the two probes and the one media message for the second item, and it returns
  success. When no media message of the delivery is acknowledged (every item is without
  primary URL, fails its probe, is of a type that is not sent, or has its media message
  refused), the delivery ends with a text message, the only one it sends: the original message
  followed, when some item has a primary URL, by the heading \<open>*Media*:\<close> and one line for each
  item that has a primary URL, in order, which holds a link with the escaped type as label
  and that URL as target; this is one link for every item when every item has a primary
  URL. The result is the result of that text message: success when it is acknowledged,
  failure when it is refused or a request exception is raised, and any other exception leaves
  the delivery.
\<close>

theorem media_delivery_and_fallback:
  "(url m1 = Some u1 \<and> u1 \<noteq> [] \<and> head_reply env (trace s) u1 \<noteq> Status 200
      \<and> url m2 = Some u2 \<and> u2 \<noteq> []
      \<and> head_reply env (trace s @ [Head u1 (head_reply env (trace s) u1)]) u2 = Status 200
      \<and> media_request k c msg m2 = Some req
      \<and> post_reply env (trace s @ [Head u1 (head_reply env (trace s) u1), Head u2 (Status 200)]) req
           = Accepted
     \<longrightarrow> fst (send_telegram_message_with_media env c msg k (Some [m1, m2]) s) = Inr True
        \<and> trace (snd (send_telegram_message_with_media env c msg k (Some [m1, m2]) s))
            = trace s @ [Head u1 (head_reply env (trace s) u1), Head u2 (Status 200),
                         Post req Accepted])
   \<and> (linked = filter (\<lambda>m. truthy (url m)) items
      \<and> sent_text
          = msg @ (if linked = [] then []
                   else [newline, newline] @ ''*Media*:''
                        @ concat (map (\<lambda>m. [newline] @ ''  '' @ [backslash] @ ''- [''
                                          @ escape_markdown_v2
                                              (Some (if type_or_unknown m = [] then ''Link''
                                                     else type_or_unknown m))
                                          @ '']('' @ the (url m) @ '')'') linked))
      \<and> (\<forall>e\<in>set (drop (length (trace s))
                (trace (snd (send_telegram_message_with_media env c msg k (Some items) s)))).
            \<not> is_media_ack e)
     \<longrightarrow> (\<exists>es. trace (snd (send_telegram_message_with_media env c msg k (Some items) s))
                 = trace s @ es
                   @ [Post (SendMessage k c sent_text)
                        (post_reply env (trace s @ es) (SendMessage k c sent_text))]
              \<and> (\<forall>e\<in>set es. \<not> is_text_post e)
              \<and> fst (send_telegram_message_with_media env c msg k (Some items) s)
                  = (case post_reply env (trace s @ es) (SendMessage k c sent_text) of
                       Accepted \<Rightarrow> Inr True
                     | Refused d body \<Rightarrow> Inr False
                     | RequestException x body \<Rightarrow> Inr False
                     | OtherException x \<Rightarrow> Inl x))
        \<and> ((\<forall>m\<in>set items. truthy (url m)) \<longrightarrow> linked = items))"
proof (intro conjI impI)
  assume a: "url m1 = Some u1 \<and> u1 \<noteq> [] \<and> head_reply env (trace s) u1 \<noteq> Status 200
      \<and> url m2 = Some u2 \<and> u2 \<noteq> []
      \<and> head_reply env (trace s @ [Head u1 (head_reply env (trace s) u1)]) u2 = Status 200
      \<and> media_request k c msg m2 = Some req
      \<and> post_reply env (trace s @ [Head u1 (head_reply env (trace s) u1), Head u2 (Status 200)]) req
           = Accepted"
  then show "fst (send_telegram_message_with_media env c msg k (Some [m1, m2]) s) = Inr True"
    by (intro deliver_second_item(1)[of m1 u1 env s m2 u2 k c msg req]) simp_all
  from a show "trace (snd (send_telegram_message_with_media env c msg k (Some [m1, m2]) s))
            = trace s @ [Head u1 (head_reply env (trace s) u1), Head u2 (Status 200),
                         Post req Accepted]"
    by (intro deliver_second_item(2)[of m1 u1 env s m2 u2 k c msg req]) simp_all
next
  assume b: "linked = filter (\<lambda>m. truthy (url m)) items
      \<and> sent_text
          = msg @ (if linked = [] then []
                   else [newline, newline] @ ''*Media*:''
                        @ concat (map (\<lambda>m. [newline] @ ''  '' @ [backslash] @ ''- [''
                                          @ escape_markdown_v2
                                              (Some (if type_or_unknown m = [] then ''Link''
                                                     else type_or_unknown m))
                                          @ '']('' @ the (url m) @ '')'') linked))
      \<and> (\<forall>e\<in>set (drop (length (trace s))
                (trace (snd (send_telegram_message_with_media env c msg k (Some items) s)))).
            \<not> is_media_ack e)"
  then have t: "sent_text = fallback_message msg items"
    by (simp only: fallback_message_explicit)
  from b have "\<forall>e\<in>set (drop (length (trace s))
                (trace (snd (send_telegram_message_with_media env c msg k (Some items) s)))).
            \<not> is_media_ack e"
    by blast
  from deliver_falls_back[OF this]
  show "\<exists>es. trace (snd (send_telegram_message_with_media env c msg k (Some items) s))
                 = trace s @ es
                   @ [Post (SendMessage k c sent_text)
                        (post_reply env (trace s @ es) (SendMessage k c sent_text))]
              \<and> (\<forall>e\<in>set es. \<not> is_text_post e)
              \<and> fst (send_telegram_message_with_media env c msg k (Some items) s)
                  = (case post_reply env (trace s @ es) (SendMessage k c sent_text) of
                       Accepted \<Rightarrow> Inr True
                     | Refused d body \<Rightarrow> Inr False
                     | RequestException x body \<Rightarrow> Inr False
                     | OtherException x \<Rightarrow> Inl x)"
    unfolding t .
  from b show "linked = items" if "\<forall>m\<in>set items. truthy (url m)"
    using that by simp
qed

lemma deliver_two_photos_first_dead:
  "send_telegram_message_with_media world_first_dead ''c'' ''m'' ''k''
     (Some [photo_item ''https://a'', photo_item ''https://b'']) fresh_state
   = (Inr True,
      fresh_state\<lparr>trace := [Head ''https://a'' (Status 404), Head ''https://b'' (Status 200),
                             Post (SendPhoto ''k'' ''c'' ''https://b'' ''m'') Accepted],
                  console := [''Media URL not accessible, skipping: https://a'']\<rparr>)"
  by (simp add: send_telegram_message_with_media_def validate_media_url_def Let_def truthy_def
        type_or_unknown_def lower_photo send_telegram_photo_def emit_def print_def)

lemma escape_photo: "escape_markdown_v2 (Some ''photo'') = ''photo''"
  by (simp add: escape_markdown_v2_Some escape_char_def special_chars_def)

lemma two_photos_text:
  "fallback_message ''m'' [photo_item ''https://a'', photo_item ''https://b'']
     = ''m'' @ [newline, newline] @ ''*Media*:'' @ [newline]
       @ ''  '' @ [backslash] @ ''- [photo](https://a)'' @ [newline]
       @ ''  '' @ [backslash] @ ''- [photo](https://b)''"
  by (simp add: fallback_message_explicit truthy_def type_or_unknown_def escape_photo)

lemma deliver_two_photos_all_dead:
  "trace (snd (send_telegram_message_with_media world_all_dead ''c'' ''m'' ''k''
     (Some [photo_item ''https://a'', photo_item ''https://b'']) fresh_state))
   = [Head ''https://a'' (Status 404), Head ''https://b'' (Status 404),
      Post (SendMessage ''k'' ''c''
              (fallback_message ''m'' [photo_item ''https://a'', photo_item ''https://b'']))
        Accepted]"
  by (simp add: send_telegram_message_with_media_def validate_media_url_def Let_def truthy_def
        type_or_unknown_def lower_photo send_telegram_message_def emit_def print_def)

lemma deliver_two_photos_refused:
  "send_telegram_message_with_media world_first_dead_refusing ''c'' ''m'' ''k''
     (Some [photo_item ''https://a'', photo_item ''https://b'']) fresh_state
   = (Inr False,
      fresh_state\<lparr>trace := [Head ''https://a'' (Status 404), Head ''https://b'' (Status 200),
                             Post (SendPhoto ''k'' ''c'' ''https://b'' ''m'') (Refused None []),
                             Post (SendMessage ''k'' ''c''
                                     (fallback_message ''m''
                                        [photo_item ''https://a'', photo_item ''https://b'']))
                               (Refused None [])],
                  console := [''Media URL not accessible, skipping: https://a'',
                              ''ERROR: Telegram sendPhoto failed: No description'',
                              ''Media failed, sending as text with links...'',
                              ''ERROR: Telegram API error: No description. Response: '']\<rparr>)"
  by (simp add: send_telegram_message_with_media_def validate_media_url_def Let_def truthy_def
        type_or_unknown_def lower_photo send_telegram_photo_def send_telegram_message_def
        emit_def print_def description_or_default_def)

theorem media_delivery_and_fallback_witness:
  "head_reply world_first_dead (trace fresh_state) ''https://a'' \<noteq> Status 200
   \<and> head_reply world_first_dead [Head ''https://a'' (Status 404)] ''https://b'' = Status 200
   \<and> fst (send_telegram_message_with_media world_first_dead ''c'' ''m'' ''k''
            (Some [photo_item ''https://a'', photo_item ''https://b'']) fresh_state) = Inr True
   \<and> posts (trace (snd (send_telegram_message_with_media world_first_dead ''c'' ''m'' ''k''
            (Some [photo_item ''https://a'', photo_item ''https://b'']) fresh_state)))
       = [Post (SendPhoto ''k'' ''c'' ''https://b'' ''m'') Accepted]
   \<and> filter is_media_ack (drop (length (trace fresh_state))
          (trace (snd (send_telegram_message_with_media world_all_dead ''c'' ''m'' ''k''
            (Some [photo_item ''https://a'', photo_item ''https://b'']) fresh_state)))) = []
   \<and> (\<exists>es. trace (snd (send_telegram_message_with_media world_all_dead ''c'' ''m'' ''k''
            (Some [photo_item ''https://a'', photo_item ''https://b'']) fresh_state))
          = trace fresh_state @ es
            @ [Post (SendMessage ''k'' ''c''
                 (''m'' @ [newline, newline] @ ''*Media*:'' @ [newline]
                  @ ''  '' @ [backslash] @ ''- [photo](https://a)'' @ [newline]
                  @ ''  '' @ [backslash] @ ''- [photo](https://b)'')) Accepted]
        \<and> filter is_text_post es = [])
   \<and> fst (send_telegram_message_with_media world_all_dead ''c'' ''m'' ''k''
            (Some [photo_item ''https://a'', photo_item ''https://b'']) fresh_state) = Inr True
   \<and> filter is_media_ack (drop (length (trace fresh_state))
          (trace (snd (send_telegram_message_with_media world_first_dead_refusing ''c'' ''m'' ''k''
            (Some [photo_item ''https://a'', photo_item ''https://b'']) fresh_state)))) = []
   \<and> fst (send_telegram_message_with_media world_first_dead_refusing ''c'' ''m'' ''k''
            (Some [photo_item ''https://a'', photo_item ''https://b'']) fresh_state) = Inr False"
proof -
  let ?items = "[photo_item ''https://a'', photo_item ''https://b'']"
  let ?text = "''m'' @ [newline, newline] @ ''*Media*:'' @ [newline]
                  @ ''  '' @ [backslash] @ ''- [photo](https://a)'' @ [newline]
                  @ ''  '' @ [backslash] @ ''- [photo](https://b)''"
  note w1 = media_delivery_and_fallback[where ?m1.0 = "photo_item ''https://a''"
          and ?u1.0 = "''https://a''" and env = world_first_dead and s = fresh_state
          and ?m2.0 = "photo_item ''https://b''" and ?u2.0 = "''https://b''" and k = "''k''"
          and c = "''c''" and msg = "''m''" and req = "SendPhoto ''k'' ''c'' ''https://b'' ''m''"
          and items = "[]" and linked = "[]" and sent_text = "''m''"]
  note w2 = media_delivery_and_fallback[where ?m1.0 = "photo_item ''https://a''"
          and ?u1.0 = "''https://a''" and env = world_all_dead and s = fresh_state
          and ?m2.0 = "photo_item ''https://b''" and ?u2.0 = "''https://b''" and k = "''k''"
          and c = "''c''" and msg = "''m''" and req = "SendPhoto ''k'' ''c'' ''https://b'' ''m''"
          and items = ?items and linked = ?items and sent_text = ?text]
  note w3 = media_delivery_and_fallback[where ?m1.0 = "photo_item ''https://a''"
          and ?u1.0 = "''https://a''" and env = world_first_dead_refusing and s = fresh_state
          and ?m2.0 = "photo_item ''https://b''" and ?u2.0 = "''https://b''" and k = "''k''"
          and c = "''c''" and msg = "''m''" and req = "SendPhoto ''k'' ''c'' ''https://b'' ''m''"
          and items = ?items and linked = ?items and sent_text = ?text]
  have l: "?items = filter (\<lambda>m. truthy (url m)) ?items"
    by (simp add: truthy_def)
  have t: "?text = ''m'' @ (if ?items = [] then []
                   else [newline, newline] @ ''*Media*:''
                        @ concat (map (\<lambda>m. [newline] @ ''  '' @ [backslash] @ ''- [''
                                          @ escape_markdown_v2
                                              (Some (if type_or_unknown m = [] then ''Link''
                                                     else type_or_unknown m))
                                          @ '']('' @ the (url m) @ '')'') ?items))"
    by (simp add: type_or_unknown_def escape_photo)
  have h2: "\<forall>e\<in>set (drop (length (trace fresh_state))
          (trace (snd (send_telegram_message_with_media world_all_dead ''c'' ''m'' ''k''
            (Some ?items) fresh_state)))). \<not> is_media_ack e"
    by (simp add: deliver_two_photos_all_dead)
  have h3: "\<forall>e\<in>set (drop (length (trace fresh_state))
          (trace (snd (send_telegram_message_with_media world_first_dead_refusing ''c'' ''m'' ''k''
            (Some ?items) fresh_state)))). \<not> is_media_ack e"
    by (simp add: deliver_two_photos_refused)
  from w1 have a: "fst (send_telegram_message_with_media world_first_dead ''c'' ''m'' ''k''
            (Some ?items) fresh_state) = Inr True
     \<and> posts (trace (snd (send_telegram_message_with_media world_first_dead ''c'' ''m'' ''k''
            (Some ?items) fresh_state)))
       = [Post (SendPhoto ''k'' ''c'' ''https://b'' ''m'') Accepted]"
    by (simp add: media_request_photo)
  from w2 l t h2 obtain es where
    es: "trace (snd (send_telegram_message_with_media world_all_dead ''c'' ''m'' ''k''
            (Some ?items) fresh_state))
          = trace fresh_state @ es
            @ [Post (SendMessage ''k'' ''c'' ?text)
                 (post_reply world_all_dead (trace fresh_state @ es) (SendMessage ''k'' ''c'' ?text))]"
        "\<forall>e\<in>set es. \<not> is_text_post e"
        "fst (send_telegram_message_with_media world_all_dead ''c'' ''m'' ''k''
            (Some ?items) fresh_state)
          = (case post_reply world_all_dead (trace fresh_state @ es) (SendMessage ''k'' ''c'' ?text) of
                       Accepted \<Rightarrow> Inr True
                     | Refused d body \<Rightarrow> Inr False
                     | RequestException x body \<Rightarrow> Inr False
                     | OtherException x \<Rightarrow> Inl x)"
    by blast
  from es have b: "(\<exists>es. trace (snd (send_telegram_message_with_media world_all_dead ''c'' ''m'' ''k''
            (Some ?items) fresh_state))
          = trace fresh_state @ es @ [Post (SendMessage ''k'' ''c'' ?text) Accepted]
        \<and> filter is_text_post es = [])
      \<and> fst (send_telegram_message_with_media world_all_dead ''c'' ''m'' ''k''
            (Some ?items) fresh_state) = Inr True"
    by (auto simp: filter_empty_conv)
  from w3 l t h3 obtain es' where
    "fst (send_telegram_message_with_media world_first_dead_refusing ''c'' ''m'' ''k''
            (Some ?items) fresh_state)
          = (case post_reply world_first_dead_refusing (trace fresh_state @ es')
                    (SendMessage ''k'' ''c'' ?text) of
                       Accepted \<Rightarrow> Inr True
                     | Refused d body \<Rightarrow> Inr False
                     | RequestException x body \<Rightarrow> Inr False
                     | OtherException x \<Rightarrow> Inl x)"
    by blast
  then have c: "fst (send_telegram_message_with_media world_first_dead_refusing ''c'' ''m'' ''k''
            (Some ?items) fresh_state) = Inr False"
    by simp
  from h2 have h2': "filter is_media_ack (drop (length (trace fresh_state))
          (trace (snd (send_telegram_message_with_media world_all_dead ''c'' ''m'' ''k''
            (Some ?items) fresh_state)))) = []"
    by (simp only: filter_empty_conv)
  from h3 have h3': "filter is_media_ack (drop (length (trace fresh_state))
          (trace (snd (send_telegram_message_with_media world_first_dead_refusing ''c'' ''m'' ''k''
            (Some ?items) fresh_state)))) = []"
    by (simp only: filter_empty_conv)
  from a b c h2' h3' show ?thesis by simp
qed

theorem media_send_refused_counterexample:
  "head_reply world_first_dead_refusing (trace fresh_state) ''https://a'' \<noteq> Status 200
   \<and> head_reply world_first_dead_refusing [Head ''https://a'' (Status 404)] ''https://b'' = Status 200
   \<and> fst (send_telegram_message_with_media world_first_dead_refusing ''c'' ''m'' ''k''
            (Some [photo_item ''https://a'', photo_item ''https://b'']) fresh_state) = Inr False
   \<and> url https_only_item = None
   \<and> trace (snd (send_telegram_message_with_media world_ok ''c'' ''m'' ''k''
                    (Some [https_only_item]) fresh_state))
       = [Post (SendMessage ''k'' ''c'' ''m'') Accepted]"
proof -
  have "url https_only_item = None"
    by (simp add: https_only_item_def)
  then show ?thesis
    by (simp add: deliver_two_photos_refused deliver_on_https_only_item)
qed


lemma handle_tweet_order:
  assumes "str_int (ident t) \<notin> sent_tweets s"
  shows "prefix (trace (probe_media env (case media_items_of t of None \<Rightarrow> [] | Some ms \<Rightarrow> ms)
                          (s\<lparr>tweet_count := tweet_count s + 1\<rparr>)))
           (trace (snd (handle_tweet cfg env t s)))"
    and "configured cfg \<Longrightarrow>
         prefix (trace (snd (send_telegram_message_with_media env (TELEGRAM_CHAT_ID cfg)
                   (telegram_message t) (TELEGRAM_BOT_TOKEN cfg) (media_items_of t)
                   (probe_media env (case media_items_of t of None \<Rightarrow> [] | Some ms \<Rightarrow> ms)
                      (s\<lparr>tweet_count := tweet_count s + 1\<rparr>)))))
           (trace (snd (handle_tweet cfg env t s)))"
proof -
  let ?s1 = "probe_media env (case media_items_of t of None \<Rightarrow> [] | Some ms \<Rightarrow> ms)
               (s\<lparr>tweet_count := tweet_count s + 1\<rparr>)"
  let ?D = "send_telegram_message_with_media env (TELEGRAM_CHAT_ID cfg)
              (telegram_message t) (TELEGRAM_BOT_TOKEN cfg) (media_items_of t) ?s1"
  obtain r s2 where d: "?D = (r, s2)" by (cases ?D)
  from send_telegram_message_with_media_frame[OF d] obtain es where
    es: "trace s2 = trace ?s1 @ es" by blast
  have dl: "delivery cfg env t s = (r, s2)"
    using d by (simp add: delivery_def)
  have h: "prefix (trace s2) (trace (snd (handle_tweet cfg env t s)))" if "configured cfg"
  proof (cases r)
    case (Inl e)
    with assms that dl show ?thesis by (simp add: handle_tweet_delivering)
  next
    case (Inr b)
    with assms that dl show ?thesis by (cases b) (simp_all add: handle_tweet_delivering)
  qed
  from h d show "configured cfg \<Longrightarrow> prefix (trace (snd ?D)) (trace (snd (handle_tweet cfg env t s)))"
    by simp
  show "prefix (trace ?s1) (trace (snd (handle_tweet cfg env t s)))"
  proof (cases "configured cfg")
    case True
    from h[OF True] es show ?thesis
      by (auto simp: prefix_def)
  next
    case False
    with assms show ?thesis by (simp add: handle_tweet_unconfigured)
  qed
qed

text \<open>
  C6 (amended). The composite delivery reads only the type and the primary \<open>url\<close> of a
  media item: items that agree on these two give the same delivery; an item without a
  primary URL is skipped without any probe; for an item with one the first call is the
  probe of that URL, after which the item is skipped when the probe fails and sent with that
  URL when it passes and the type is one that is sent. The ordered candidate list over the
  four attributes (primary, HTTPS media, legacy media, preview, those that are set), probed
  in order until the first passes, is what \<open>get_best_media_url\<close> does. The cycle calls it for
  every item of a new tweet, in order, before the delivery; these calls only add probes to
  the trace (and messages to the console), and the delivery that follows is made with the
  media items of the tweet as they are.
\<close>

theorem deliver_probes_primary_url_only:
  "(map url ms' = map url ms \<and> map mtype ms' = map mtype ms \<longrightarrow>
      send_telegram_message_with_media env c msg k (Some ms') s
        = send_telegram_message_with_media env c msg k (Some ms) s)
   \<and> (\<not> truthy (url m) \<longrightarrow>
        media_loop env c msg k (m # ms) s = media_loop env c msg k ms s)
   \<and> (truthy (url m) \<longrightarrow>
        (\<exists>es. trace (snd (media_loop env c msg k (m # ms) s))
               = trace s @ Head (the (url m)) (head_reply env (trace s) (the (url m))) # es))
   \<and> (truthy (url m) \<and> head_reply env (trace s) (the (url m)) \<noteq> Status 200 \<longrightarrow>
        (\<exists>s1. media_loop env c msg k (m # ms) s = media_loop env c msg k ms s1
           \<and> trace s1 = trace s @ [Head (the (url m)) (head_reply env (trace s) (the (url m)))]
           \<and> same_data s s1))
   \<and> (truthy (url m) \<and> head_reply env (trace s) (the (url m)) = Status 200
        \<and> media_request k c msg m = Some req \<longrightarrow>
        (\<exists>es. trace (snd (media_loop env c msg k (m # ms) s))
               = trace s @ Head (the (url m)) (Status 200)
                   # Post req (post_reply env (trace s @ [Head (the (url m)) (Status 200)]) req)
                   # es))
   \<and> (\<forall>s'. get_best_media_url env m s = (None, s') \<longrightarrow>
        (\<exists>es. trace s' = trace s @ es
           \<and> probes es = map (\<lambda>u. (u, False))
                 (map the (filter truthy
                    [url m, media_url_https m, media_url m, preview_image_url m]))))
   \<and> (\<forall>w s'. get_best_media_url env m s = (Some w, s') \<longrightarrow>
        (\<exists>es pre post. trace s' = trace s @ es
           \<and> map the (filter truthy [url m, media_url_https m, media_url m, preview_image_url m])
               = pre @ w # post
           \<and> probes es = map (\<lambda>u. (u, False)) pre @ [(w, True)]))
   \<and> probe_media env [] s = s
   \<and> probe_media env (m # ms) s = probe_media env ms (snd (get_best_media_url env m s))
   \<and> same_data s (probe_media env ms s)
   \<and> (\<exists>es. trace (probe_media env ms s) = trace s @ es \<and> posts es = [])
   \<and> (str_int (ident t) \<notin> sent_tweets s \<longrightarrow>
        prefix (trace (probe_media env (case media_items_of t of None \<Rightarrow> [] | Some ms \<Rightarrow> ms)
                         (s\<lparr>tweet_count := tweet_count s + 1\<rparr>)))
          (trace (snd (handle_tweet cfg env t s))))
   \<and> (str_int (ident t) \<notin> sent_tweets s \<and> configured cfg \<longrightarrow>
        prefix (trace (snd (send_telegram_message_with_media env (TELEGRAM_CHAT_ID cfg)
                  (telegram_message t) (TELEGRAM_BOT_TOKEN cfg) (media_items_of t)
                  (probe_media env (case media_items_of t of None \<Rightarrow> [] | Some ms \<Rightarrow> ms)
                     (s\<lparr>tweet_count := tweet_count s + 1\<rparr>)))))
          (trace (snd (handle_tweet cfg env t s))))"
proof (intro conjI impI allI)
  assume "map url ms' = map url ms \<and> map mtype ms' = map mtype ms"
  then show "send_telegram_message_with_media env c msg k (Some ms') s
        = send_telegram_message_with_media env c msg k (Some ms) s"
    using deliver_reads_type_and_url by blast
next
  assume "\<not> truthy (url m)"
  then show "media_loop env c msg k (m # ms) s = media_loop env c msg k ms s"
    by simp
next
  assume t: "truthy (url m)"
  obtain b s' where l: "media_loop env c msg k (m # ms) s = (b, s')"
    by (cases "media_loop env c msg k (m # ms) s")
  from media_loop_probes_first[OF t l] l
  show "\<exists>es. trace (snd (media_loop env c msg k (m # ms) s))
               = trace s @ Head (the (url m)) (head_reply env (trace s) (the (url m))) # es"
    by simp
next
  assume "truthy (url m) \<and> head_reply env (trace s) (the (url m)) \<noteq> Status 200"
  then show "\<exists>s1. media_loop env c msg k (m # ms) s = media_loop env c msg k ms s1
           \<and> trace s1 = trace s @ [Head (the (url m)) (head_reply env (trace s) (the (url m)))]
           \<and> same_data s s1"
    using media_loop_probe_fails by blast
next
  assume "truthy (url m) \<and> head_reply env (trace s) (the (url m)) = Status 200
        \<and> media_request k c msg m = Some req"
  then show "\<exists>es. trace (snd (media_loop env c msg k (m # ms) s))
               = trace s @ Head (the (url m)) (Status 200)
                   # Post req (post_reply env (trace s @ [Head (the (url m)) (Status 200)]) req)
                   # es"
    using media_loop_probe_passes by blast
next
  fix s'
  assume "get_best_media_url env m s = (None, s')"
  then show "\<exists>es. trace s' = trace s @ es
           \<and> probes es = map (\<lambda>u. (u, False))
                 (map the (filter truthy
                    [url m, media_url_https m, media_url m, preview_image_url m]))"
    using first_working_url_None[of env "possible_urls m" s s']
    by (simp only: get_best_media_url_def possible_urls_def)
next
  fix w s'
  assume "get_best_media_url env m s = (Some w, s')"
  then show "\<exists>es pre post. trace s' = trace s @ es
           \<and> map the (filter truthy [url m, media_url_https m, media_url m, preview_image_url m])
               = pre @ w # post
           \<and> probes es = map (\<lambda>u. (u, False)) pre @ [(w, True)]"
    using first_working_url_Some[of env "possible_urls m" s w s']
    by (simp only: get_best_media_url_def possible_urls_def)
next
  show "probe_media env [] s = s" by simp
next
  show "probe_media env (m # ms) s = probe_media env ms (snd (get_best_media_url env m s))"
    by simp
next
  show "same_data s (probe_media env ms s)"
    using probe_media_frame by blast
next
  show "\<exists>es. trace (probe_media env ms s) = trace s @ es \<and> posts es = []"
    using probe_media_frame by blast
next
  assume "str_int (ident t) \<notin> sent_tweets s"
  then show "prefix (trace (probe_media env (case media_items_of t of None \<Rightarrow> [] | Some ms \<Rightarrow> ms)
                         (s\<lparr>tweet_count := tweet_count s + 1\<rparr>)))
          (trace (snd (handle_tweet cfg env t s)))"
    by (rule handle_tweet_order(1))
next
  assume "str_int (ident t) \<notin> sent_tweets s \<and> configured cfg"
  then show "prefix (trace (snd (send_telegram_message_with_media env (TELEGRAM_CHAT_ID cfg)
                  (telegram_message t) (TELEGRAM_BOT_TOKEN cfg) (media_items_of t)
                  (probe_media env (case media_items_of t of None \<Rightarrow> [] | Some ms \<Rightarrow> ms)
                     (s\<lparr>tweet_count := tweet_count s + 1\<rparr>)))))
          (trace (snd (handle_tweet cfg env t s)))"
    using handle_tweet_order(2) by blast
qed

lemma resolver_on_https_only_item:
  "get_best_media_url world_ok https_only_item fresh_state
     = (Some ''https://pbs.example/a.jpg'',
        fresh_state\<lparr>trace := [Head ''https://pbs.example/a.jpg'' (Status 200)]\<rparr>)"
  by (simp add: get_best_media_url_def possible_urls_def https_only_item_def truthy_def
        validate_media_url_def Let_def emit_def)

lemma resolver_on_full_item:
  "get_best_media_url world_all_dead full_item fresh_state
     = (None,
        fresh_state\<lparr>trace := [Head ''https://a'' (Status 404), Head ''https://b'' (Status 404),
                               Head ''https://c'' (Status 404), Head ''https://d'' (Status 404)]\<rparr>)"
  by (simp add: get_best_media_url_def possible_urls_def full_item_def truthy_def
        validate_media_url_def Let_def emit_def)

lemma media_tweet_simps:
  "str_int (ident media_tweet) = ''42''" "media_items_of media_tweet = Some [https_only_item]"
  using ident_text_tweet by (simp_all add: media_tweet_def media_items_of_def)

lemma probe_media_media_tweet:
  "trace (probe_media world_ok (case media_items_of media_tweet of None \<Rightarrow> [] | Some ms \<Rightarrow> ms)
            (fresh_state\<lparr>tweet_count := tweet_count fresh_state + 1\<rparr>))
     = [Head ''https://pbs.example/a.jpg'' (Status 200)]"
  by (simp add: media_tweet_simps get_best_media_url_def possible_urls_def https_only_item_def
        truthy_def validate_media_url_def Let_def)

lemma handle_media_tweet:
  "trace (snd (handle_tweet default_config world_ok media_tweet fresh_state))
     = [Head ''https://pbs.example/a.jpg'' (Status 200),
        Post (SendMessage (TELEGRAM_BOT_TOKEN default_config) (TELEGRAM_CHAT_ID default_config)
                (telegram_message media_tweet)) Accepted,
        FileAppend ''42'' Completed, Sleep 10]"
proof -
  have u: "url https_only_item = None"
    by (simp add: https_only_item_def)
  have p: "possible_urls https_only_item = [''https://pbs.example/a.jpg'']"
    by (simp add: possible_urls_def https_only_item_def truthy_def)
  show ?thesis
    by (simp add: handle_tweet_def Let_def media_tweet_simps configured_default
          get_best_media_url_def p validate_media_url_def send_telegram_message_with_media_def
          u truthy_def fallback_message_def media_links_def send_telegram_message_def)
qed

theorem deliver_probes_primary_url_only_witness:
  "\<not> truthy (url https_only_item)
   \<and> media_loop world_ok ''c'' ''m'' ''k'' [https_only_item, photo_item ''https://b''] fresh_state
       = media_loop world_ok ''c'' ''m'' ''k'' [photo_item ''https://b''] fresh_state
   \<and> truthy (url (photo_item ''https://b''))
   \<and> head_reply world_ok (trace fresh_state) ''https://b'' = Status 200
   \<and> (\<exists>es. trace (snd (media_loop world_ok ''c'' ''m'' ''k'' [photo_item ''https://b''] fresh_state))
             = Head ''https://b'' (Status 200)
                 # Post (SendPhoto ''k'' ''c'' ''https://b'' ''m'') Accepted # es)
   \<and> head_reply world_all_dead (trace fresh_state) ''https://b'' = Status 404
   \<and> (\<exists>s1. media_loop world_all_dead ''c'' ''m'' ''k'' [photo_item ''https://b''] fresh_state
             = media_loop world_all_dead ''c'' ''m'' ''k'' [] s1
           \<and> trace s1 = [Head ''https://b'' (Status 404)])
   \<and> get_best_media_url world_ok https_only_item fresh_state
       = (Some ''https://pbs.example/a.jpg'',
          fresh_state\<lparr>trace := [Head ''https://pbs.example/a.jpg'' (Status 200)]\<rparr>)
   \<and> (\<exists>es pre post.
         trace (fresh_state\<lparr>trace := [Head ''https://pbs.example/a.jpg'' (Status 200)]\<rparr>)
           = trace fresh_state @ es
         \<and> map the (filter truthy [url https_only_item, media_url_https https_only_item,
                                    media_url https_only_item, preview_image_url https_only_item])
             = pre @ ''https://pbs.example/a.jpg'' # post
         \<and> probes es = map (\<lambda>u. (u, False)) pre @ [(''https://pbs.example/a.jpg'', True)])
   \<and> fst (get_best_media_url world_all_dead full_item fresh_state) = None
   \<and> probes (trace (snd (get_best_media_url world_all_dead full_item fresh_state)))
       = [(''https://a'', False), (''https://b'', False), (''https://c'', False),
          (''https://d'', False)]
   \<and> str_int (ident media_tweet) \<notin> sent_tweets fresh_state \<and> configured default_config
   \<and> prefix [Head ''https://pbs.example/a.jpg'' (Status 200)]
        (trace (snd (handle_tweet default_config world_ok media_tweet fresh_state)))
   \<and> trace (snd (handle_tweet default_config world_ok media_tweet fresh_state))
       = [Head ''https://pbs.example/a.jpg'' (Status 200),
          Post (SendMessage (TELEGRAM_BOT_TOKEN default_config) (TELEGRAM_CHAT_ID default_config)
                  (telegram_message media_tweet)) Accepted,
          FileAppend ''42'' Completed, Sleep 10]"
proof -
  have a: "\<not> truthy (url https_only_item)"
    by (simp add: https_only_item_def truthy_def)
  have b: "truthy (url (photo_item ''https://b''))"
    by (simp add: truthy_def)
  note r = resolver_on_https_only_item
  note r4 = resolver_on_full_item
  note w1 = deliver_probes_primary_url_only[where ms' = "[photo_item ''https://b'']"
          and ms = "[photo_item ''https://b'']" and env = world_ok and c = "''c''"
          and msg = "''m''" and k = "''k''" and s = fresh_state and m = https_only_item
          and t = media_tweet and cfg = default_config]
  note w2 = deliver_probes_primary_url_only[where ms' = "[]" and ms = "[]" and env = world_ok
          and c = "''c''" and msg = "''m''" and k = "''k''" and s = fresh_state
          and m = "photo_item ''https://b''" and req = "SendPhoto ''k'' ''c'' ''https://b'' ''m''"]
  note w3 = deliver_probes_primary_url_only[where ms' = "[]" and ms = "[]"
          and env = world_all_dead and c = "''c''" and msg = "''m''" and k = "''k''"
          and s = fresh_state and m = "photo_item ''https://b''"]
  note w4 = deliver_probes_primary_url_only[where ms' = "[]" and ms = "[]"
          and env = world_all_dead and c = "''c''" and msg = "''m''" and k = "''k''"
          and s = fresh_state and m = full_item]
  from w1 a have c: "media_loop world_ok ''c'' ''m'' ''k'' [https_only_item, photo_item ''https://b''] fresh_state
       = media_loop world_ok ''c'' ''m'' ''k'' [photo_item ''https://b''] fresh_state"
    by blast
  from w2 b have d: "\<exists>es. trace (snd (media_loop world_ok ''c'' ''m'' ''k'' [photo_item ''https://b''] fresh_state))
             = Head ''https://b'' (Status 200)
                 # Post (SendPhoto ''k'' ''c'' ''https://b'' ''m'') Accepted # es"
    by (simp add: media_request_photo del: media_loop.simps probe_media.simps)
  from w3 b have f: "\<exists>s1. media_loop world_all_dead ''c'' ''m'' ''k'' [photo_item ''https://b''] fresh_state
             = media_loop world_all_dead ''c'' ''m'' ''k'' [] s1
           \<and> trace s1 = [Head ''https://b'' (Status 404)]"
    by (simp del: media_loop.simps probe_media.simps) blast
  from w1 r have e: "\<exists>es pre post.
         trace (fresh_state\<lparr>trace := [Head ''https://pbs.example/a.jpg'' (Status 200)]\<rparr>)
           = trace fresh_state @ es
         \<and> map the (filter truthy [url https_only_item, media_url_https https_only_item,
                                    media_url https_only_item, preview_image_url https_only_item])
             = pre @ ''https://pbs.example/a.jpg'' # post
         \<and> probes es = map (\<lambda>u. (u, False)) pre @ [(''https://pbs.example/a.jpg'', True)]"
    by blast
  from w4 r4 have "\<exists>es. trace (fresh_state\<lparr>trace := [Head ''https://a'' (Status 404),
            Head ''https://b'' (Status 404), Head ''https://c'' (Status 404),
            Head ''https://d'' (Status 404)]\<rparr>) = trace fresh_state @ es
        \<and> probes es = map (\<lambda>u. (u, False))
             (map the (filter truthy [url full_item, media_url_https full_item,
                                      media_url full_item, preview_image_url full_item]))"
    by blast
  then have h: "probes (trace (snd (get_best_media_url world_all_dead full_item fresh_state)))
       = [(''https://a'', False), (''https://b'', False), (''https://c'', False),
          (''https://d'', False)]"
    unfolding r4 by (auto simp: full_item_def truthy_def)
  have n: "str_int (ident media_tweet) \<notin> sent_tweets fresh_state"
    by simp
  from w1 n have "prefix (trace (probe_media world_ok
            (case media_items_of media_tweet of None \<Rightarrow> [] | Some ms \<Rightarrow> ms)
            (fresh_state\<lparr>tweet_count := tweet_count fresh_state + 1\<rparr>)))
        (trace (snd (handle_tweet default_config world_ok media_tweet fresh_state)))"
    by blast
  then have i: "prefix [Head ''https://pbs.example/a.jpg'' (Status 200)]
        (trace (snd (handle_tweet default_config world_ok media_tweet fresh_state)))"
    unfolding probe_media_media_tweet .
  have g: "head_reply world_ok (trace fresh_state) ''https://b'' = Status 200"
    "head_reply world_all_dead (trace fresh_state) ''https://b'' = Status 404"
    by simp_all
  have j: "fst (get_best_media_url world_all_dead full_item fresh_state) = None"
    by (simp add: r4)
  from a b c d e f g r h i j n configured_default handle_media_tweet show ?thesis by blast
qed

theorem resolver_not_used_by_deliver_counterexample:
  "fst (get_best_media_url world_ok https_only_item fresh_state) = Some ''https://pbs.example/a.jpg''
   \<and> trace (snd (send_telegram_message_with_media world_ok ''c'' ''m'' ''k''
                    (Some [https_only_item]) fresh_state))
       = [Post (SendMessage ''k'' ''c'' ''m'') Accepted]"
  by (simp add: resolver_on_https_only_item deliver_on_https_only_item)

end
